theory Spec2Isabelle
  imports Complex_Main
begin

section \<open>Data model\<close>

text \<open>
  Identifiers are MongoDB ObjectIds. A stored identifier is modelled by the string that
  \<open>toString()\<close> gives for it: 24 hexadecimal digits, the letters in lower case. Dates
  are epoch milliseconds; \<open>null\<close> is \<open>None\<close>.
\<close>

type_synonym oid = string

text \<open>
  A string that a request brings (a path parameter, the \<open>userId\<close> of a token) is cast
  when it is passed to \<open>User.findById\<close> or pushed onto an array of identifiers: 24
  hexadecimal digits in either case are read as the identifier, any other string is a
  \<open>CastError\<close> (\<open>None\<close>). The strings of 12 bytes that some versions of the driver
  also accept are not modelled. Where the source compares the string itself, the model
  compares the string itself.
\<close>

definition is_hex :: "char \<Rightarrow> bool" where
  "is_hex c = (c \<in> set ''0123456789abcdefABCDEF'')"

definition hex_lower :: "char \<Rightarrow> char" where
  "hex_lower c =
     (if c = CHR ''A'' then CHR ''a'' else if c = CHR ''B'' then CHR ''b''
      else if c = CHR ''C'' then CHR ''c'' else if c = CHR ''D'' then CHR ''d''
      else if c = CHR ''E'' then CHR ''e'' else if c = CHR ''F'' then CHR ''f'' else c)"

definition castObjectId :: "string \<Rightarrow> oid option" where
  "castObjectId s =
     (if length s = 24 \<and> list_all is_hex s then Some (map hex_lower s) else None)"

record media =
  m_type :: string
  m_url :: string
  m_public_id :: "string option"

record gallery_item =
  g_type :: "string option"
  g_url :: "string option"
  g_public_id :: "string option"
  g_order :: "int option"
  g_placement :: "string option"

record comment =
  c_user :: oid
  c_content :: string
  c_createdAt :: int

text \<open>The document of \<open>models/Blog.js\<close>; \<open>blog_id\<close> is the \<open>_id\<close> field.\<close>

record blog =
  blog_id :: oid
  title :: string
  content :: string
  excerpt :: string
  author :: oid
  category :: string
  tags :: "string list"
  media :: media
  mediaGallery :: "gallery_item list"
  status :: string
  publishedAt :: "int option"
  readTime :: int
  views :: int
  likes :: "oid list"
  comments :: "comment list"

text \<open>
  The user document: \<open>models/User.js\<close> is not among the sources; the routes read
  and write only the fields below.
\<close>

record user =
  user_id :: oid
  username :: string
  followers :: "oid list"
  following :: "oid list"

section \<open>Collections\<close>

text \<open>
  A collection is the list of its documents. \<open>findById\<close>, given an identifier,
  returns the first document with it, \<open>save\<close> and \<open>findByIdAndUpdate\<close> rewrite it in place,
  \<open>findByIdAndDelete\<close> removes it.
\<close>

fun findBlogById :: "blog list \<Rightarrow> oid \<Rightarrow> blog option" where
  "findBlogById [] i = None"
| "findBlogById (b # bs) i = (if blog_id b = i then Some b else findBlogById bs i)"

fun saveBlog :: "blog \<Rightarrow> blog list \<Rightarrow> blog list" where
  "saveBlog d [] = []"
| "saveBlog d (b # bs) = (if blog_id b = blog_id d then d # bs else b # saveBlog d bs)"

fun removeBlog :: "oid \<Rightarrow> blog list \<Rightarrow> blog list" where
  "removeBlog i [] = []"
| "removeBlog i (b # bs) = (if blog_id b = i then bs else b # removeBlog i bs)"

fun findUserById :: "user list \<Rightarrow> oid \<Rightarrow> user option" where
  "findUserById [] i = None"
| "findUserById (u # us) i = (if user_id u = i then Some u else findUserById us i)"

text \<open>
  \<open>save()\<close> of a user document whose \<open>following\<close> (\<open>followers\<close>) array was
  pushed onto writes that path only: the element is appended to the stored array of the
  document with the identifier.
\<close>

fun pushFollowing :: "oid \<Rightarrow> oid \<Rightarrow> user list \<Rightarrow> user list" where
  "pushFollowing i x [] = []"
| "pushFollowing i x (u # us) =
     (if user_id u = i then u\<lparr>following := following u @ [x]\<rparr> # us
      else u # pushFollowing i x us)"

fun pushFollowers :: "oid \<Rightarrow> oid \<Rightarrow> user list \<Rightarrow> user list" where
  "pushFollowers i x [] = []"
| "pushFollowers i x (u # us) =
     (if user_id u = i then u\<lparr>followers := followers u @ [x]\<rparr> # us
      else u # pushFollowers i x us)"

section \<open>Document methods of \<open>models/Blog.js\<close>\<close>

text \<open>
  \<open>indexOf\<close> finds the first occurrence; \<open>splice(likeIndex, 1)\<close> removes that one
  element, which is what \<open>remove1\<close> does; \<open>push\<close> appends.
\<close>

definition toggleLike :: "blog \<Rightarrow> oid \<Rightarrow> blog" where
  "toggleLike b userId =
     (if userId \<in> set (likes b)
      then b\<lparr>likes := remove1 userId (likes b)\<rparr>
      else b\<lparr>likes := likes b @ [userId]\<rparr>)"

definition incrementViews :: "blog \<Rightarrow> blog" where
  "incrementViews b = b\<lparr>views := views b + 1\<rparr>"

section \<open>JavaScript strings and numbers\<close>

text \<open>
  Strings are lists of 8-bit characters; \<open>\s\<close> is read on them as the ASCII white
  space characters (tab, line feed, vertical tab, form feed, carriage return, space).
\<close>

definition is_space :: "char \<Rightarrow> bool" where
  "is_space c = (c \<in> {CHR 0x09, CHR 0x0A, CHR 0x0B, CHR 0x0C, CHR 0x0D, CHR '' ''})"

text \<open>
  \<open>s.split(/\s+/)\<close>: the pieces between the maximal runs of white space. The flag
  says that the previous character belonged to a separator; \<open>cur\<close> is the piece
  being read. A string that starts (ends) with white space gets an empty first (last)
  piece, and the empty string gives one empty piece.
\<close>

fun split_ws_from :: "bool \<Rightarrow> string \<Rightarrow> string \<Rightarrow> string list" where
  "split_ws_from insep cur [] = [cur]"
| "split_ws_from insep cur (c # cs) =
     (if is_space c
      then (if insep then split_ws_from True cur cs else cur # split_ws_from True [] cs)
      else split_ws_from False (cur @ [c]) cs)"

definition split_ws :: "string \<Rightarrow> string list" where
  "split_ws s = split_ws_from False [] s"

definition startsWith :: "string \<Rightarrow> string \<Rightarrow> bool" where
  "startsWith s p = (take (length p) s = p)"

text \<open>\<open>s.replace(pat, rep)\<close> with a string pattern: the first occurrence only.\<close>

fun js_replace :: "string \<Rightarrow> string \<Rightarrow> string \<Rightarrow> string" where
  "js_replace pat rep [] = (if pat = [] then rep else [])"
| "js_replace pat rep (c # cs) =
     (if startsWith (c # cs) pat then rep @ drop (length pat) (c # cs)
      else c # js_replace pat rep cs)"

text \<open>The \<open>trim\<close> setter of a Mongoose string path.\<close>

definition js_trim :: "string \<Rightarrow> string" where
  "js_trim s = rev (dropWhile is_space (rev (dropWhile is_space s)))"

text \<open>
  The value of \<open>Math.ceil(a / b)\<close> for integers \<open>a\<close> and \<open>b\<close>: a division by
  zero gives \<open>Infinity\<close> or \<open>NaN\<close> in JavaScript, not an exception.
\<close>

datatype jsnum = Finite int | Infinity | NegInfinity | NaN

definition ceil_div :: "int \<Rightarrow> int \<Rightarrow> int" where
  "ceil_div a b = - ((- a) div b)"

definition js_ceil_div :: "int \<Rightarrow> int \<Rightarrow> jsnum" where
  "js_ceil_div a b =
     (if b = 0 then (if a = 0 then NaN else if 0 < a then Infinity else NegInfinity)
      else Finite (ceil_div a b))"

section \<open>Replies\<close>

text \<open>The \<open>data\<close> object of the listing: each blog with its \<open>isLiked\<close> flag when
  the request carries an identity.\<close>

record listing =
  l_blogs :: "(blog \<times> bool option) list"
  l_totalPages :: jsnum
  l_currentPage :: int
  l_total :: int

datatype reply =
    ErrorReply nat string
  | ValidationErrors "string list"
  | MessageReply nat string
  | BlogReply blog "bool option"
  | BlogMessageReply nat string blog
  | LikeReply bool nat
  | CommentReply comment
  | ListReply listing

fun status_code :: "reply \<Rightarrow> nat" where
  "status_code (ErrorReply c m) = c"
| "status_code (ValidationErrors es) = 400"
| "status_code (MessageReply c m) = c"
| "status_code (BlogReply b l) = 200"
| "status_code (BlogMessageReply c m b) = c"
| "status_code (LikeReply l n) = 200"
| "status_code (CommentReply c) = 201"
| "status_code (ListReply d) = 200"

section \<open>Token verification: \<open>middleware/auth.js\<close>\<close>

text \<open>
  \<open>jwt.verify\<close> belongs to the \<open>jsonwebtoken\<close> package and is a parameter of the
  model: it returns the decoded payload, of which only \<open>userId\<close> is read, or throws.
  \<open>OtherError\<close> stands for a thrown error whose name is neither
  \<open>JsonWebTokenError\<close> nor \<open>TokenExpiredError\<close>. In \<open>auth\<close>, a \<open>userId\<close>
  that is absent or the empty string is falsy, and \<open>User.findById\<close> is called inside
  the inner \<open>try\<close>: its \<open>CastError\<close> is thrown again by the inner \<open>catch\<close> and
  answered 500 by the outer one.
\<close>

datatype jwt_outcome =
    Decoded "oid option"
  | JsonWebTokenError
  | TokenExpiredError
  | OtherError

text \<open>A middleware either answers the request itself or calls \<open>next()\<close>, with
  \<open>req.user\<close> as it then is.\<close>

datatype mw_result = Respond reply | Next "user option"

definition blacklistToken :: "string \<Rightarrow> string set \<Rightarrow> string set" where
  "blacklistToken token tokenBlacklist = insert token tokenBlacklist"

definition isTokenBlacklisted :: "string set \<Rightarrow> string \<Rightarrow> bool" where
  "isTokenBlacklisted tokenBlacklist token = (token \<in> tokenBlacklist)"

definition auth ::
  "(string \<Rightarrow> jwt_outcome) \<Rightarrow> string set \<Rightarrow> user list \<Rightarrow> string option \<Rightarrow> mw_result" where
  "auth jwt_verify tokenBlacklist users authHeader =
     (case authHeader of
        None \<Rightarrow> Respond (ErrorReply 401 ''Access denied. No token provided.'')
      | Some h \<Rightarrow>
          if \<not> startsWith h ''Bearer ''
          then Respond (ErrorReply 401 ''Access denied. No token provided.'')
          else let token = js_replace ''Bearer '' [] h in
            if isTokenBlacklisted tokenBlacklist token
            then Respond (ErrorReply 401 ''Token has been invalidated'')
            else (case jwt_verify token of
                JsonWebTokenError \<Rightarrow> Respond (ErrorReply 401 ''Invalid token.'')
              | TokenExpiredError \<Rightarrow> Respond (ErrorReply 401 ''Token expired.'')
              | OtherError \<Rightarrow> Respond (ErrorReply 500 ''Server error during authentication.'')
              | Decoded None \<Rightarrow> Respond (ErrorReply 401 ''Invalid token: Missing user ID'')
              | Decoded (Some userId) \<Rightarrow>
                  if userId = []
                  then Respond (ErrorReply 401 ''Invalid token: Missing user ID'')
                  else (case castObjectId userId of
                     None \<Rightarrow>
                       Respond (ErrorReply 500 ''Server error during authentication.'')
                   | Some i \<Rightarrow>
                       (case findUserById users i of
                          None \<Rightarrow> Respond (ErrorReply 404 ''User not found'')
                        | Some u \<Rightarrow> Next (Some u)))))"

text \<open>
  \<open>optionalAuth\<close> lives in the same module and could read \<open>tokenBlacklist\<close>; it
  is passed here as it is to \<open>auth\<close>. An empty token is falsy and skips the
  verification; whatever is thrown inside, the \<open>CastError\<close> of \<open>User.findById\<close>
  included, is caught and followed by \<open>next()\<close>. \<open>findById(undefined)\<close> finds
  nothing.
\<close>

definition optionalAuth ::
  "(string \<Rightarrow> jwt_outcome) \<Rightarrow> string set \<Rightarrow> user list \<Rightarrow> string option \<Rightarrow> mw_result" where
  "optionalAuth jwt_verify tokenBlacklist users authHeader =
     (case authHeader of
        None \<Rightarrow> Next None
      | Some h \<Rightarrow>
          let token = js_replace ''Bearer '' [] h in
          if token = [] then Next None
          else (case jwt_verify token of
              Decoded (Some userId) \<Rightarrow>
                (case castObjectId userId of
                   None \<Rightarrow> Next None
                 | Some i \<Rightarrow> Next (findUserById users i))
            | Decoded None \<Rightarrow> Next None
            | JsonWebTokenError \<Rightarrow> Next None
            | TokenExpiredError \<Rightarrow> Next None
            | OtherError \<Rightarrow> Next None))"

text \<open>\<open>POST /logout\<close> of \<open>routes/user.js\<close>: behind \<open>auth\<close>, it revokes the
  token of the request.\<close>

definition logout ::
  "(string \<Rightarrow> jwt_outcome) \<Rightarrow> string set \<Rightarrow> user list \<Rightarrow> string option
   \<Rightarrow> reply \<times> string set" where
  "logout jwt_verify tokenBlacklist users authHeader =
     (case auth jwt_verify tokenBlacklist users authHeader of
        Respond r \<Rightarrow> (r, tokenBlacklist)
      | Next u \<Rightarrow>
          (MessageReply 200 ''Logged out successfully'',
           (case authHeader of
              None \<Rightarrow> tokenBlacklist
            | Some h \<Rightarrow>
                let token = js_replace ''Bearer '' [] h in
                if token = [] then tokenBlacklist else blacklistToken token tokenBlacklist)))"

section \<open>Request validation (\<open>express-validator\<close>)\<close>

text \<open>
  A request body is the record of the fields the routes read, each absent or of its JSON
  type. A validator chain contributes its message when it fails; a missing field is
  validated as the empty string unless the chain is \<open>optional()\<close>; a wildcard chain
  runs once per element.
\<close>

record blog_body =
  body_title :: "string option"
  body_content :: "string option"
  body_excerpt :: "string option"
  body_category :: "string option"
  body_tags :: "string list option"
  body_media :: "media option"
  body_mediaGallery :: "gallery_item list option"
  body_status :: "string option"

definition isLength :: "nat \<Rightarrow> nat option \<Rightarrow> string \<Rightarrow> bool" where
  "isLength lo hi s =
     (lo \<le> length s \<and> (case hi of None \<Rightarrow> True | Some h \<Rightarrow> length s \<le> h))"

definition isIn :: "string list \<Rightarrow> string \<Rightarrow> bool" where
  "isIn allowed s = (s \<in> set allowed)"

definition field_value :: "string option \<Rightarrow> string" where
  "field_value v = (case v of None \<Rightarrow> [] | Some s \<Rightarrow> s)"

definition optional :: "('a \<Rightarrow> bool) \<Rightarrow> 'a option \<Rightarrow> bool" where
  "optional p v = (case v of None \<Rightarrow> True | Some x \<Rightarrow> p x)"

definition withMessage :: "bool \<Rightarrow> string \<Rightarrow> string list" where
  "withMessage ok msg = (if ok then [] else [msg])"

definition categories :: "string list" where
  "categories = [''Technology'', ''Design'', ''Development'', ''Business'', ''Lifestyle'',
     ''Travel'', ''Food'', ''Health'', ''Education'', ''Entertainment'', ''Other'']"

definition gallery_of :: "blog_body \<Rightarrow> gallery_item list" where
  "gallery_of body = (case body_mediaGallery body of None \<Rightarrow> [] | Some g \<Rightarrow> g)"

definition gallery_type_errors :: "blog_body \<Rightarrow> string list" where
  "gallery_type_errors body =
     concat (map (\<lambda>m. withMessage (optional (isIn [''image'', ''video'']) (g_type m))
                        ''Each media item type must be image or video'') (gallery_of body))"

definition gallery_placement_errors :: "blog_body \<Rightarrow> string list" where
  "gallery_placement_errors body =
     concat (map (\<lambda>m. withMessage
                        (optional (isIn [''header'', ''inline'', ''footer'']) (g_placement m))
                        ''Placement must be header, inline, or footer'') (gallery_of body))"

definition gallery_size_errors :: "blog_body \<Rightarrow> string list" where
  "gallery_size_errors body =
     withMessage (optional (\<lambda>g. length g \<le> 20) (body_mediaGallery body))
       ''Media gallery must be an array (max 20 items)''"

definition status_errors :: "blog_body \<Rightarrow> string list" where
  "status_errors body =
     withMessage (optional (isIn [''draft'', ''published'']) (body_status body))
       ''Invalid status''"

text \<open>The chains of \<open>router.post('/')\<close>, in their order.\<close>

definition validatePost :: "blog_body \<Rightarrow> string list" where
  "validatePost body =
     withMessage (isLength 5 (Some 200) (field_value (body_title body)))
       ''Title must be between 5 and 200 characters''
   @ withMessage (isLength 10 None (field_value (body_content body)))
       ''Content must be at least 10 characters''
   @ withMessage (isLength 10 (Some 300) (field_value (body_excerpt body)))
       ''Excerpt must be between 10 and 300 characters''
   @ withMessage (isIn categories (field_value (body_category body))) ''Invalid category''
   @ withMessage (case body_tags body of None \<Rightarrow> False | Some ts \<Rightarrow> length ts \<le> 10)
       ''Maximum 10 tags allowed''
   @ concat (map (\<lambda>t. withMessage (isLength 1 (Some 20) t)
                         ''Each tag must be between 1 and 20 characters'')
               (case body_tags body of None \<Rightarrow> [] | Some ts \<Rightarrow> ts))
   @ gallery_type_errors body
   @ gallery_placement_errors body
   @ gallery_size_errors body
   @ status_errors body"

text \<open>The chains of \<open>router.put('/:id')\<close>: every one is optional, and the elements of
  \<open>tags\<close> are not checked.\<close>

definition validatePut :: "blog_body \<Rightarrow> string list" where
  "validatePut body =
     withMessage (optional (isLength 5 (Some 200)) (body_title body))
       ''Title must be between 5 and 200 characters''
   @ withMessage (optional (isLength 10 None) (body_content body))
       ''Content must be at least 10 characters''
   @ withMessage (optional (isLength 10 (Some 300)) (body_excerpt body))
       ''Excerpt must be between 10 and 300 characters''
   @ withMessage (optional (isIn categories) (body_category body)) ''Invalid category''
   @ withMessage (optional (\<lambda>ts. length ts \<le> 10) (body_tags body))
       ''Maximum 10 tags allowed''
   @ gallery_size_errors body
   @ gallery_type_errors body
   @ gallery_placement_errors body
   @ status_errors body"

section \<open>Schema validation (\<open>models/Blog.js\<close>)\<close>

text \<open>
  The validators of the schema paths, run by \<open>save()\<close> on a new document and by
  \<open>findByIdAndUpdate\<close> with \<open>runValidators\<close> on the paths of the update. A required
  string is not empty. The paths with \<open>trim\<close> are trimmed before they are validated
  and stored.
\<close>

definition title_ok :: "string \<Rightarrow> bool" where
  "title_ok t = (t \<noteq> [] \<and> length t \<le> 200)"

definition content_ok :: "string \<Rightarrow> bool" where
  "content_ok c = (c \<noteq> [] \<and> 10 \<le> length c)"

definition excerpt_ok :: "string \<Rightarrow> bool" where
  "excerpt_ok e = (e \<noteq> [] \<and> length e \<le> 300)"

definition category_ok :: "string \<Rightarrow> bool" where
  "category_ok c = isIn categories c"

definition tags_ok :: "string list \<Rightarrow> bool" where
  "tags_ok ts = list_all (\<lambda>t. length t \<le> 20) ts"

definition media_ok :: "media \<Rightarrow> bool" where
  "media_ok m = isIn [''image'', ''video'', ''none''] (m_type m)"

definition gallery_item_ok :: "gallery_item \<Rightarrow> bool" where
  "gallery_item_ok m =
     ((case g_type m of None \<Rightarrow> False | Some t \<Rightarrow> isIn [''image'', ''video''] t)
      \<and> (case g_url m of None \<Rightarrow> False | Some u \<Rightarrow> u \<noteq> [])
      \<and> optional (isIn [''header'', ''inline'', ''footer'']) (g_placement m))"

definition gallery_ok :: "gallery_item list \<Rightarrow> bool" where
  "gallery_ok g = list_all gallery_item_ok g"

definition status_ok :: "string \<Rightarrow> bool" where
  "status_ok s = isIn [''draft'', ''published'', ''archived''] s"

definition readTime_ok :: "int \<Rightarrow> bool" where
  "readTime_ok r = (1 \<le> r)"

definition schemaValid :: "blog \<Rightarrow> bool" where
  "schemaValid b =
     (title_ok (title b) \<and> content_ok (content b) \<and> excerpt_ok (excerpt b)
      \<and> category_ok (category b) \<and> tags_ok (tags b) \<and> media_ok (media b)
      \<and> gallery_ok (mediaGallery b) \<and> status_ok (status b) \<and> readTime_ok (readTime b))"

section \<open>The blog routes\<close>

text \<open>
  Every handler takes the collections it reads and returns its reply with the
  collection it has written. \<open>now\<close> is the value of \<open>new Date()\<close>, \<open>new_id\<close> the
  identifier the database gives a new document. The routes behind \<open>auth\<close> take the
  identity that \<open>auth\<close> attached. The best-effort calls to the media host are caught by
  the handlers and change neither the reply nor the collection; they are left out.
\<close>

definition readTimeOf :: "string \<Rightarrow> int" where
  "readTimeOf c = (let wordCount = int (length (split_ws c)) in ceil_div wordCount 200)"

definition normaliseGallery :: "gallery_item list \<Rightarrow> gallery_item list" where
  "normaliseGallery g =
     map (\<lambda>(idx, m). m\<lparr>
            g_order := Some (case g_order m of None \<Rightarrow> int idx | Some n \<Rightarrow> n),
            g_placement := Some (case g_placement m of
                None \<Rightarrow> ''header''
              | Some p \<Rightarrow> if isIn [''header'', ''inline'', ''footer''] p then p else ''header'')\<rparr>)
         (enumerate 0 g)"

definition default_media :: media where
  "default_media = \<lparr>m_type = ''none'',
     m_url = ''https://images.unsplash.com/photo-1486312338219-ce68d2c6f44d?w=600&h=400&fit=crop'',
     m_public_id = None\<rparr>"

subsection \<open>\<open>GET /:id\<close>\<close>

text \<open>
  The value of \<open>!req.user || blogDoc.author._id.toString() !== req.user._id.toString()\<close>,
  where the second argument is the populated author: \<open>populate\<close> leaves \<open>null\<close> when
  the reference does not resolve, and reading \<open>_id\<close> of it throws (\<open>None\<close>).
\<close>

fun viewerIsNotAuthor :: "user option \<Rightarrow> user option \<Rightarrow> bool option" where
  "viewerIsNotAuthor None populated = Some True"
| "viewerIsNotAuthor (Some u) None = None"
| "viewerIsNotAuthor (Some u) (Some a) = Some (user_id a \<noteq> user_id u)"

definition isLikedBy :: "user option \<Rightarrow> blog \<Rightarrow> bool option" where
  "isLikedBy req_user b = map_option (\<lambda>u. user_id u \<in> set (likes b)) req_user"

definition getBlog :: "user option \<Rightarrow> oid \<Rightarrow> user list \<Rightarrow> blog list \<Rightarrow> reply \<times> blog list" where
  "getBlog req_user i users blogs =
     (case findBlogById blogs i of
        None \<Rightarrow> (ErrorReply 404 ''Blog not found'', blogs)
      | Some blogDoc \<Rightarrow>
          let populated = findUserById users (author blogDoc) in
          if status blogDoc \<noteq> ''published''
          then (case viewerIsNotAuthor req_user populated of
                  None \<Rightarrow> (ErrorReply 500 ''Server error'', blogs)
                | Some True \<Rightarrow> (ErrorReply 404 ''Blog not found'', blogs)
                | Some False \<Rightarrow> (BlogReply blogDoc (isLikedBy req_user blogDoc), blogs))
          else (case viewerIsNotAuthor req_user populated of
                  None \<Rightarrow> (ErrorReply 500 ''Server error'', blogs)
                | Some True \<Rightarrow>
                    let viewed = incrementViews blogDoc in
                    (BlogReply viewed (isLikedBy req_user viewed), saveBlog viewed blogs)
                | Some False \<Rightarrow> (BlogReply blogDoc (isLikedBy req_user blogDoc), blogs)))"

subsection \<open>\<open>POST /:id/like\<close>\<close>

definition likeBlog :: "user \<Rightarrow> oid \<Rightarrow> blog list \<Rightarrow> reply \<times> blog list" where
  "likeBlog req_user i blogs =
     (case findBlogById blogs i of
        None \<Rightarrow> (ErrorReply 404 ''Blog not found'', blogs)
      | Some b \<Rightarrow>
          if status b \<noteq> ''published'' then (ErrorReply 404 ''Blog not found'', blogs)
          else let b' = toggleLike b (user_id req_user) in
            (LikeReply (user_id req_user \<in> set (likes b')) (length (likes b')),
             saveBlog b' blogs))"

subsection \<open>\<open>POST /\<close>\<close>

definition createBlog :: "int \<Rightarrow> oid \<Rightarrow> user \<Rightarrow> blog_body \<Rightarrow> blog list \<Rightarrow> reply \<times> blog list" where
  "createBlog now new_id req_user body blogs =
     (let errors = validatePost body in
      if errors \<noteq> [] then (ValidationErrors errors, blogs)
      else
        let c = field_value (body_content body);
            st = (case body_status body of None \<Rightarrow> ''draft'' | Some s \<Rightarrow> s);
            b = \<lparr>blog_id = new_id,
                 title = js_trim (field_value (body_title body)),
                 content = c,
                 excerpt = field_value (body_excerpt body),
                 author = user_id req_user,
                 category = field_value (body_category body),
                 tags = map js_trim (case body_tags body of None \<Rightarrow> [] | Some ts \<Rightarrow> ts),
                 media = (case body_media body of None \<Rightarrow> default_media | Some m \<Rightarrow> m),
                 mediaGallery = normaliseGallery (gallery_of body),
                 status = st,
                 publishedAt = (if st = ''published'' then Some now else None),
                 readTime = readTimeOf c,
                 views = 0,
                 likes = [],
                 comments = []\<rparr>
        in if schemaValid b
           then (BlogMessageReply 201 ''Blog created successfully'' b, blogs @ [b])
           else (ErrorReply 500 ''Server error during blog creation'', blogs))"

subsection \<open>\<open>PUT /:id\<close>\<close>

text \<open>
  \<open>filteredUpdates\<close>: the allow-listed fields of the body, to which the handler adds
  \<open>publishedAt\<close> (a date or \<open>null\<close>) and \<open>readTime\<close>. The body record has no other
  key, so the allow-list keeps all of it.
\<close>

record blog_update =
  upd_title :: "string option"
  upd_content :: "string option"
  upd_excerpt :: "string option"
  upd_category :: "string option"
  upd_tags :: "string list option"
  upd_media :: "media option"
  upd_mediaGallery :: "gallery_item list option"
  upd_status :: "string option"
  upd_publishedAt :: "int option option"
  upd_readTime :: "int option"

definition filteredUpdates :: "int \<Rightarrow> blog \<Rightarrow> blog_body \<Rightarrow> blog_update" where
  "filteredUpdates now b body =
     \<lparr>upd_title = body_title body,
      upd_content = body_content body,
      upd_excerpt = body_excerpt body,
      upd_category = body_category body,
      upd_tags = body_tags body,
      upd_media = body_media body,
      upd_mediaGallery = map_option normaliseGallery (body_mediaGallery body),
      upd_status = body_status body,
      upd_publishedAt =
        (if body_status body = Some ''published'' \<and> status b \<noteq> ''published''
         then Some (Some now)
         else if body_status body = Some ''draft'' then Some None
         else None),
      upd_readTime =
        (case body_content body of
           None \<Rightarrow> None
         | Some c \<Rightarrow> if c \<noteq> [] then Some (readTimeOf c) else None)\<rparr>"

definition updateValid :: "blog_update \<Rightarrow> bool" where
  "updateValid u =
     (optional (\<lambda>t. title_ok (js_trim t)) (upd_title u)
      \<and> optional content_ok (upd_content u)
      \<and> optional excerpt_ok (upd_excerpt u)
      \<and> optional category_ok (upd_category u)
      \<and> optional (\<lambda>ts. tags_ok (map js_trim ts)) (upd_tags u)
      \<and> optional media_ok (upd_media u)
      \<and> optional gallery_ok (upd_mediaGallery u)
      \<and> optional status_ok (upd_status u)
      \<and> optional readTime_ok (upd_readTime u))"

definition orElse :: "'a option \<Rightarrow> 'a \<Rightarrow> 'a" where
  "orElse v d = (case v of None \<Rightarrow> d | Some x \<Rightarrow> x)"

definition applyUpdate :: "blog_update \<Rightarrow> blog \<Rightarrow> blog" where
  "applyUpdate u b =
     b\<lparr>title := orElse (map_option js_trim (upd_title u)) (title b),
       content := orElse (upd_content u) (content b),
       excerpt := orElse (upd_excerpt u) (excerpt b),
       category := orElse (upd_category u) (category b),
       tags := orElse (map_option (map js_trim) (upd_tags u)) (tags b),
       media := orElse (upd_media u) (media b),
       mediaGallery := orElse (upd_mediaGallery u) (mediaGallery b),
       status := orElse (upd_status u) (status b),
       publishedAt := orElse (upd_publishedAt u) (publishedAt b),
       readTime := orElse (upd_readTime u) (readTime b)\<rparr>"

definition updateBlog :: "int \<Rightarrow> user \<Rightarrow> oid \<Rightarrow> blog_body \<Rightarrow> blog list \<Rightarrow> reply \<times> blog list" where
  "updateBlog now req_user i body blogs =
     (let errors = validatePut body in
      if errors \<noteq> [] then (ValidationErrors errors, blogs)
      else (case findBlogById blogs i of
          None \<Rightarrow> (ErrorReply 404 ''Blog not found'', blogs)
        | Some b \<Rightarrow>
            if author b \<noteq> user_id req_user
            then (ErrorReply 403 ''Not authorized to update this blog'', blogs)
            else
              let u = filteredUpdates now b body in
              if updateValid u
              then let updatedBlog = applyUpdate u b in
                (BlogMessageReply 200 ''Blog updated successfully'' updatedBlog,
                 saveBlog updatedBlog blogs)
              else (ErrorReply 500 ''Server error during blog update'', blogs)))"

subsection \<open>\<open>GET /\<close>\<close>

text \<open>
  The query string: \<open>page\<close> and \<open>limit\<close> are absent or hold an integer numeral, which
  \<open>parseInt\<close> and the division both read as that integer. \<open>regex\<close> compiles the
  search pattern, case-insensitively, into its test; \<open>None\<close> is the exception of an
  invalid pattern. The database sorts; the model sorts by insertion. The placeholder
  images that the handler writes into the blogs of the reply are left out.
\<close>

record list_query =
  q_page :: "int option"
  q_limit :: "int option"
  q_category :: "string option"
  q_search :: "string option"
  q_sort :: "string option"

definition compileSearch ::
  "(string \<Rightarrow> (string \<Rightarrow> bool) option) \<Rightarrow> list_query \<Rightarrow> (string \<Rightarrow> bool) option option" where
  "compileSearch regex q =
     (case q_search q of
        None \<Rightarrow> Some None
      | Some s \<Rightarrow> if s = [] then Some None else map_option Some (regex s))"

definition matchesQuery :: "(string \<Rightarrow> bool) option \<Rightarrow> list_query \<Rightarrow> blog \<Rightarrow> bool" where
  "matchesQuery rx q b =
     (status b = ''published''
      \<and> (case q_category q of
            None \<Rightarrow> True
          | Some c \<Rightarrow> if c \<noteq> [] \<and> c \<noteq> ''all'' then category b = c else True)
      \<and> (case rx of
            None \<Rightarrow> True
          | Some test \<Rightarrow> test (title b) \<or> test (excerpt b) \<or> test (content b)
                          \<or> list_ex test (tags b)))"

text \<open>Ascending order of dates, \<open>null\<close> first.\<close>

fun date_le :: "int option \<Rightarrow> int option \<Rightarrow> bool" where
  "date_le None y = True"
| "date_le (Some x) None = False"
| "date_le (Some x) (Some y) = (x \<le> y)"

definition sortOptions :: "string \<Rightarrow> blog \<Rightarrow> blog \<Rightarrow> bool" where
  "sortOptions sortKey a b =
     (if sortKey = ''newest'' then date_le (publishedAt b) (publishedAt a)
      else if sortKey = ''oldest'' then date_le (publishedAt a) (publishedAt b)
      else if sortKey = ''popular'' then views b \<le> views a
      else if sortKey = ''trending'' then views b \<le> views a
      else date_le (publishedAt b) (publishedAt a))"

fun insort_by :: "('a \<Rightarrow> 'a \<Rightarrow> bool) \<Rightarrow> 'a \<Rightarrow> 'a list \<Rightarrow> 'a list" where
  "insort_by le x [] = [x]"
| "insort_by le x (y # ys) = (if le x y then x # y # ys else y # insort_by le x ys)"

definition sort_by :: "('a \<Rightarrow> 'a \<Rightarrow> bool) \<Rightarrow> 'a list \<Rightarrow> 'a list" where
  "sort_by le xs = foldr (insort_by le) xs []"

definition listBlogs ::
  "(string \<Rightarrow> (string \<Rightarrow> bool) option) \<Rightarrow> user option \<Rightarrow> list_query \<Rightarrow> blog list \<Rightarrow> reply" where
  "listBlogs regex req_user q blogs =
     (let page = orElse (q_page q) 1;
          limit = orElse (q_limit q) 10;
          sortKey = orElse (q_sort q) ''newest'';
          pageNum = max 1 page;
          limitNum = min 100 (max 1 limit)
      in case compileSearch regex q of
           None \<Rightarrow> ErrorReply 500 ''Failed to fetch blogs''
         | Some rx \<Rightarrow>
             let matching = filter (matchesQuery rx q) blogs;
                 found = take (nat limitNum)
                           (drop (nat ((pageNum - 1) * limitNum))
                              (sort_by (sortOptions sortKey) matching));
                 total = int (length matching)
             in ListReply
                  \<lparr>l_blogs = map (\<lambda>b. (b, isLikedBy req_user b)) found,
                   l_totalPages = js_ceil_div total limit,
                   l_currentPage = page,
                   l_total = total\<rparr>)"

subsection \<open>\<open>DELETE /:id\<close> and \<open>POST /:id/comments\<close>\<close>

definition deleteBlog :: "user \<Rightarrow> oid \<Rightarrow> blog list \<Rightarrow> reply \<times> blog list" where
  "deleteBlog req_user i blogs =
     (case findBlogById blogs i of
        None \<Rightarrow> (ErrorReply 404 ''Blog not found'', blogs)
      | Some b \<Rightarrow>
          if author b \<noteq> user_id req_user
          then (ErrorReply 403 ''Not authorized to delete this blog'', blogs)
          else (MessageReply 200 ''Blog deleted successfully'', removeBlog i blogs))"

definition addComment ::
  "int \<Rightarrow> user \<Rightarrow> oid \<Rightarrow> string option \<Rightarrow> blog list \<Rightarrow> reply \<times> blog list" where
  "addComment now req_user i body_comment blogs =
     (let errors = withMessage (isLength 1 (Some 1000) (field_value body_comment))
                     ''Comment must be between 1 and 1000 characters'' in
      if errors \<noteq> [] then (ValidationErrors errors, blogs)
      else (case findBlogById blogs i of
          None \<Rightarrow> (ErrorReply 404 ''Blog not found'', blogs)
        | Some b \<Rightarrow>
            if status b \<noteq> ''published'' then (ErrorReply 404 ''Blog not found'', blogs)
            else
              let c = \<lparr>c_user = user_id req_user, c_content = field_value body_comment,
                       c_createdAt = now\<rparr>
              in (CommentReply c, saveBlog (b\<lparr>comments := comments b @ [c]\<rparr>) blogs)))"

section \<open>The follow route of \<open>routes/user.js\<close>\<close>

text \<open>
  \<open>POST /follow/:userId\<close>, behind \<open>auth\<close>; \<open>userId\<close> is the path parameter as
  the request spells it. The self check and \<open>following.includes\<close> compare that
  string; \<open>findById\<close> and \<open>push\<close> cast it. A \<open>CastError\<close>, and reading
  \<open>following\<close> of a current user that \<open>findById\<close> did not find, are caught and
  answered 500.
\<close>

definition follow :: "user \<Rightarrow> string \<Rightarrow> user list \<Rightarrow> reply \<times> user list" where
  "follow req_user userId users =
     (if user_id req_user = userId
      then (ErrorReply 400 ''You cannot follow yourself'', users)
      else (case castObjectId userId of
          None \<Rightarrow> (ErrorReply 500 ''Server error'', users)
        | Some target \<Rightarrow>
            (case findUserById users target of
               None \<Rightarrow> (ErrorReply 404 ''User not found'', users)
             | Some userToFollow \<Rightarrow>
                 (case findUserById users (user_id req_user) of
                    None \<Rightarrow> (ErrorReply 500 ''Server error'', users)
                  | Some currentUser \<Rightarrow>
                      if userId \<in> set (following currentUser)
                      then (ErrorReply 400 ''Already following this user'', users)
                      else
                        let users1 = pushFollowing (user_id currentUser) target users;
                            users2 = pushFollowers (user_id userToFollow) (user_id req_user)
                                       users1
                        in (MessageReply 200 ''User followed successfully'', users2)))))"

section \<open>The stores the routes can build\<close>

text \<open>
  The identity store and the blog collection, from empty stores, under the requests
  that write them. \<open>POST /signup\<close> adds an identity under a new identifier (what else
  it stores is in \<open>models/User.js\<close>, which is not among the sources). A request behind
  \<open>auth\<close> carries an identity of the store; \<open>GET /:id\<close> is behind \<open>optionalAuth\<close>
  and carries one or none. A new post gets a new identifier.
\<close>

inductive reachable :: "user list \<Rightarrow> blog list \<Rightarrow> bool" where
  init: "reachable [] []"
| signup: "reachable users blogs \<Longrightarrow> findUserById users (user_id u) = None
     \<Longrightarrow> reachable (users @ [u]) blogs"
| follows: "reachable users blogs \<Longrightarrow> findUserById users (user_id u) = Some u
     \<Longrightarrow> reachable (snd (follow u userId users)) blogs"
| creates: "reachable users blogs \<Longrightarrow> findUserById users (user_id u) = Some u
     \<Longrightarrow> findBlogById blogs new_id = None
     \<Longrightarrow> reachable users (snd (createBlog now new_id u body blogs))"
| updates: "reachable users blogs \<Longrightarrow> findUserById users (user_id u) = Some u
     \<Longrightarrow> reachable users (snd (updateBlog now u i body blogs))"
| deletes: "reachable users blogs \<Longrightarrow> findUserById users (user_id u) = Some u
     \<Longrightarrow> reachable users (snd (deleteBlog u i blogs))"
| likes: "reachable users blogs \<Longrightarrow> findUserById users (user_id u) = Some u
     \<Longrightarrow> reachable users (snd (likeBlog u i blogs))"
| comments: "reachable users blogs \<Longrightarrow> findUserById users (user_id u) = Some u
     \<Longrightarrow> reachable users (snd (addComment now u i body_comment blogs))"
| reads: "reachable users blogs
     \<Longrightarrow> req_user = None \<or> (\<exists>u. req_user = Some u \<and> findUserById users (user_id u) = Some u)
     \<Longrightarrow> reachable users (snd (getBlog req_user i users blogs))"

text \<open>What the handlers rely on: a like list names an identity once, and the author of a
  post is in the identity store.\<close>

definition well_formed :: "user list \<Rightarrow> blog \<Rightarrow> bool" where
  "well_formed users b = (distinct (likes b) \<and> findUserById users (author b) \<noteq> None)"

section \<open>The words of a body, as the specification counts them\<close>

text \<open>
  The number of white-space-separated words of a string: the maximal runs of characters
  that are not white space. The flag says that the previous character belonged to a word.
\<close>

fun count_words_from :: "bool \<Rightarrow> string \<Rightarrow> nat" where
  "count_words_from inword [] = 0"
| "count_words_from inword (c # cs) =
     (if is_space c then count_words_from False cs
      else (if inword then 0 else 1) + count_words_from True cs)"

definition spec_wordCount :: "string \<Rightarrow> nat" where
  "spec_wordCount s = count_words_from False s"

text \<open>The read time the specification states: \<open>ceil(wordCount / 200)\<close>, minimum 1.\<close>

definition spec_readTime :: "string \<Rightarrow> int" where
  "spec_readTime s = max 1 (ceil_div (int (spec_wordCount s)) 200)"

text \<open>Whether a string ends with white space, \<open>f\<close> answering for the empty one.\<close>

definition ends_space :: "bool \<Rightarrow> string \<Rightarrow> bool" where
  "ends_space f s = (if s = [] then f else is_space (last s))"

section \<open>Example documents\<close>

definition alice :: user where
  "alice = \<lparr>user_id = ''aaaaaaaaaaaaaaaaaaaaaaa1'', username = ''alice'', followers = [], following = [''bbbbbbbbbbbbbbbbbbbbbbb2'']\<rparr>"

definition bob :: user where
  "bob = \<lparr>user_id = ''bbbbbbbbbbbbbbbbbbbbbbb2'', username = ''bob'', followers = [''aaaaaaaaaaaaaaaaaaaaaaa1''], following = []\<rparr>"

definition example_blog :: blog where
  "example_blog =
     \<lparr>blog_id = ''p1'', title = ''First post'', content = ''hello world, again'',
      excerpt = ''hello world'', author = ''aaaaaaaaaaaaaaaaaaaaaaa1'', category = ''Other'', tags = [],
      media = default_media, mediaGallery = [], status = ''published'',
      publishedAt = Some 1000, readTime = 1, views = 7, likes = [''bbbbbbbbbbbbbbbbbbbbbbb2''], comments = []\<rparr>"

definition example_draft :: blog where
  "example_draft = example_blog\<lparr>blog_id := ''p2'', status := ''draft'', publishedAt := None\<rparr>"

definition empty_body :: blog_body where
  "empty_body =
     \<lparr>body_title = None, body_content = None, body_excerpt = None, body_category = None,
      body_tags = None, body_media = None, body_mediaGallery = None, body_status = None\<rparr>"

definition status_body :: "string \<Rightarrow> blog_body" where
  "status_body s = empty_body\<lparr>body_status := Some s\<rparr>"

definition post_body :: "string \<Rightarrow> blog_body" where
  "post_body c = empty_body\<lparr>body_title := Some ''First post'', body_content := Some c,
     body_excerpt := Some ''hello world'', body_category := Some ''Other'',
     body_tags := Some []\<rparr>"

text \<open>A body of 200 words, each followed by one space.\<close>

definition trailing_body :: string where
  "trailing_body = concat (replicate 200 ''word '')"

definition empty_query :: list_query where
  "empty_query = \<lparr>q_page = None, q_limit = None, q_category = None, q_search = None,
     q_sort = None\<rparr>"

text \<open>A collection of \<open>n\<close> published posts with different identifiers.\<close>

definition many_posts :: "nat \<Rightarrow> blog list" where
  "many_posts n = map (\<lambda>k. example_blog\<lparr>blog_id := replicate (Suc k) CHR ''p''\<rparr>) [0..<n]"

definition page_query :: "int \<Rightarrow> int \<Rightarrow> list_query" where
  "page_query p l = empty_query\<lparr>q_page := Some p, q_limit := Some l\<rparr>"

definition example_verify :: "string \<Rightarrow> jwt_outcome" where
  "example_verify t =
     (if t = ''tok-alice'' then Decoded (Some ''aaaaaaaaaaaaaaaaaaaaaaa1'')
      else if t = ''tok-ghost'' then Decoded (Some ''cccccccccccccccccccccccc'')
      else if t = ''tok-forged'' then Decoded (Some ''zz'')
      else if t = ''tok-old'' then TokenExpiredError
      else JsonWebTokenError)"

section \<open>Identifiers\<close>

lemma castObjectId_length: "castObjectId s = Some i \<Longrightarrow> length s = 24"
  by (simp add: castObjectId_def split: if_splits)

lemma castObjectId_examples:
  "castObjectId ''aaaaaaaaaaaaaaaaaaaaaaa1'' = Some ''aaaaaaaaaaaaaaaaaaaaaaa1''"
  "castObjectId ''bbbbbbbbbbbbbbbbbbbbbbb2'' = Some ''bbbbbbbbbbbbbbbbbbbbbbb2''"
  "castObjectId ''cccccccccccccccccccccccc'' = Some ''cccccccccccccccccccccccc''"
  "castObjectId ''AAAAAAAAAAAAAAAAAAAAAAA1'' = Some ''aaaaaaaaaaaaaaaaaaaaaaa1''"
  "castObjectId ''BBBBBBBBBBBBBBBBBBBBBBB2'' = Some ''bbbbbbbbbbbbbbbbbbbbbbb2''"
  "castObjectId ''zz'' = None"
  by (simp_all add: castObjectId_def is_hex_def hex_lower_def)

section \<open>Likes\<close>

lemma toggleLike_distinct:
  "distinct (likes b) \<Longrightarrow> distinct (likes (toggleLike b u))"
  by (simp add: toggleLike_def)

lemma toggleLike_absent_twice:
  "u \<notin> set (likes b) \<Longrightarrow> toggleLike (toggleLike b u) u = b"
  by (simp add: toggleLike_def remove1_append)

lemma toggleLike_present_twice:
  "u \<in> set (likes b) \<Longrightarrow> distinct (likes b) \<Longrightarrow>
   toggleLike (toggleLike b u) u = b\<lparr>likes := remove1 u (likes b) @ [u]\<rparr>"
  by (simp add: toggleLike_def)

text \<open>
  Claim C2. Toggling a like twice for the same identity restores the like set of the
  post: the set of liking identities, the identity's own membership and the like count
  are what they were before the first toggle, and no other field of the post changes.
  The like list holds each identity at most once, as it does for every post of a store
  that the routes can build (\<open>reachable_post\<close>).
\<close>

theorem toggleLike_twice:
  assumes "distinct (likes b)"
  shows "set (likes (toggleLike (toggleLike b u) u)) = set (likes b)
       \<and> (u \<in> set (likes (toggleLike (toggleLike b u) u))) = (u \<in> set (likes b))
       \<and> length (likes (toggleLike (toggleLike b u) u)) = length (likes b)
       \<and> (\<exists>ls. toggleLike (toggleLike b u) u = b\<lparr>likes := ls\<rparr>)"
proof (cases "u \<in> set (likes b)")
  case True
  have eq: "toggleLike (toggleLike b u) u = b\<lparr>likes := remove1 u (likes b) @ [u]\<rparr>"
    using True assms by (rule toggleLike_present_twice)
  have "set (remove1 u (likes b) @ [u]) = set (likes b)"
    using True assms by auto
  moreover have "length (remove1 u (likes b) @ [u]) = length (likes b)"
    using True by (simp add: length_remove1) (metis length_pos_if_in_set Suc_pred)
  ultimately show ?thesis
    using True eq by auto
next
  case False
  then have "toggleLike (toggleLike b u) u = b"
    by (rule toggleLike_absent_twice)
  moreover have "b = b\<lparr>likes := likes b\<rparr>" by simp
  ultimately show ?thesis by metis
qed

theorem toggleLike_twice_witness:
  "distinct (likes example_blog)
   \<and> set (likes (toggleLike (toggleLike example_blog ''bbbbbbbbbbbbbbbbbbbbbbb2'') ''bbbbbbbbbbbbbbbbbbbbbbb2'')) = set (likes example_blog)
   \<and> length (likes (toggleLike (toggleLike example_blog ''bbbbbbbbbbbbbbbbbbbbbbb2'') ''bbbbbbbbbbbbbbbbbbbbbbb2'')) = length (likes example_blog)"
proof -
  have d: "distinct (likes example_blog)"
    by (simp add: example_blog_def)
  show ?thesis
    using d toggleLike_twice [OF d, of "''bbbbbbbbbbbbbbbbbbbbbbb2''"] by simp
qed

section \<open>Token verification\<close>

lemma js_replace_startsWith:
  "startsWith h p \<Longrightarrow> js_replace p r h = r @ drop (length p) h"
  by (cases h) (auto simp: startsWith_def)

lemma js_replace_prefix: "js_replace p r (p @ s) = r @ s"
  using js_replace_startsWith [of "p @ s" p r] by (simp add: startsWith_def)

lemma startsWith_append: "startsWith (p @ s) p"
  by (simp add: startsWith_def)

text \<open>
  What \<open>auth\<close> answers. A request without an \<open>Authorization\<close> header, or whose
  header does not start with \<open>Bearer\<close> and a space, is answered 401; so is a token of
  the revocation set, and a token that \<open>jwt.verify\<close> finds malformed or expired or
  whose payload has no user id. A token that verifies, is not revoked and whose user id
  is an identifier that is not in the identity store is answered 404; when the
  identifier is in the store, \<open>next()\<close> is called with the identity attached.
\<close>

lemma auth_outcomes:
  "(authHeader = None \<or> (\<exists>h. authHeader = Some h \<and> \<not> startsWith h ''Bearer '')
      \<longrightarrow> auth jwt_verify tokenBlacklist users authHeader
            = Respond (ErrorReply 401 ''Access denied. No token provided.''))
   \<and> (authHeader = Some (''Bearer '' @ token) \<and> token \<in> tokenBlacklist
      \<longrightarrow> auth jwt_verify tokenBlacklist users authHeader
            = Respond (ErrorReply 401 ''Token has been invalidated''))
   \<and> (authHeader = Some (''Bearer '' @ token)
        \<and> (jwt_verify token = JsonWebTokenError \<or> jwt_verify token = TokenExpiredError
            \<or> jwt_verify token = Decoded None \<or> jwt_verify token = Decoded (Some []))
      \<longrightarrow> (\<exists>msg. auth jwt_verify tokenBlacklist users authHeader
            = Respond (ErrorReply 401 msg)))
   \<and> (authHeader = Some (''Bearer '' @ token) \<and> token \<notin> tokenBlacklist
        \<and> jwt_verify token = Decoded (Some userId) \<and> castObjectId userId = Some i
        \<and> findUserById users i = None
      \<longrightarrow> auth jwt_verify tokenBlacklist users authHeader
            = Respond (ErrorReply 404 ''User not found''))
   \<and> (authHeader = Some (''Bearer '' @ token) \<and> token \<notin> tokenBlacklist
        \<and> jwt_verify token = Decoded (Some userId) \<and> castObjectId userId = Some i
        \<and> findUserById users i = Some u
      \<longrightarrow> auth jwt_verify tokenBlacklist users authHeader = Next (Some u))"
proof -
  have tok: "js_replace ''Bearer '' [] (''Bearer '' @ token) = token"
    using js_replace_prefix [of "''Bearer ''" "[]" token] by simp
  have sw: "startsWith (''Bearer '' @ token) ''Bearer ''"
    by (rule startsWith_append)
  have ne: "castObjectId userId = Some i \<Longrightarrow> userId \<noteq> []"
    using castObjectId_length [of userId i] by auto
  show ?thesis
    unfolding auth_def isTokenBlacklisted_def
    using tok sw ne by (auto simp: Let_def)
qed

lemma auth_cast_error:
  assumes "authHeader = Some (''Bearer '' @ token)" and "token \<notin> tokenBlacklist"
    and "jwt_verify token = Decoded (Some userId)" and "userId \<noteq> []"
    and "castObjectId userId = None"
  shows "auth jwt_verify tokenBlacklist users authHeader
       = Respond (ErrorReply 500 ''Server error during authentication.'')"
proof -
  have tok: "js_replace ''Bearer '' [] (''Bearer '' @ token) = token"
    using js_replace_prefix [of "''Bearer ''" "[]" token] by simp
  have sw: "startsWith (''Bearer '' @ token) ''Bearer ''"
    by (rule startsWith_append)
  show ?thesis
    unfolding auth_def isTokenBlacklisted_def
    using tok sw assms by (simp add: Let_def)
qed

text \<open>
  Claim C5. Mandatory verification answers 401 for a missing, malformed, expired or
  revoked token, 404 for a verified token whose user id is an identifier that does not
  resolve, and attaches the identity otherwise (\<open>auth_outcomes\<close>). A verified,
  unexpired, unrevoked token whose user id is not an identifier at all does not resolve
  either, and is answered neither 401 nor 404: \<open>User.findById\<close> throws on it, and
  the request is answered 500. Here the token \<open>tok-forged\<close> carries the user id
  \<open>zz\<close>.
\<close>

theorem auth_malformed_userId:
  "example_verify ''tok-forged'' = Decoded (Some ''zz'')
   \<and> ''tok-forged'' \<notin> ({} :: string set)
   \<and> auth example_verify {} [alice, bob] (Some ''Bearer tok-forged'')
       = Respond (ErrorReply 500 ''Server error during authentication.'')"
proof -
  have v: "example_verify ''tok-forged'' = Decoded (Some ''zz'')"
    by (simp add: example_verify_def)
  have "auth example_verify {} [alice, bob] (Some (''Bearer '' @ ''tok-forged''))
       = Respond (ErrorReply 500 ''Server error during authentication.'')"
    using v castObjectId_examples(6)
    by (intro auth_cast_error [where token = "''tok-forged''" and userId = "''zz''"]) simp_all
  with v show ?thesis by simp
qed

lemma optionalAuth_next:
  "\<exists>u. optionalAuth jwt_verify tokenBlacklist users authHeader = Next u"
  by (simp add: optionalAuth_def Let_def split: option.splits jwt_outcome.splits)

text \<open>
  Claim C10. Optional verification always calls \<open>next()\<close> and never answers the
  request itself; its result does not depend on the revocation set. A token that
  mandatory verification accepted and that \<open>POST /logout\<close> then revoked is rejected by
  \<open>auth\<close> and still attaches its identity under \<open>optionalAuth\<close>. A token that is
  malformed, expired or otherwise fails verification, or whose user id is missing, is
  not an identifier or does not resolve, lets the request proceed with no identity.
\<close>

theorem optionalAuth_ignores_revocation:
  "(\<exists>u. optionalAuth jwt_verify tokenBlacklist users authHeader = Next u)
   \<and> optionalAuth jwt_verify tokenBlacklist users authHeader
       = optionalAuth jwt_verify {} users authHeader
   \<and> (authHeader = Some (''Bearer '' @ token) \<and> token \<noteq> []
        \<and> auth jwt_verify tokenBlacklist users authHeader = Next (Some u)
      \<longrightarrow> (let revoked = snd (logout jwt_verify tokenBlacklist users authHeader) in
            token \<in> revoked
            \<and> auth jwt_verify revoked users authHeader
                = Respond (ErrorReply 401 ''Token has been invalidated'')
            \<and> optionalAuth jwt_verify revoked users authHeader = Next (Some u)))
   \<and> (authHeader = Some (''Bearer '' @ token)
        \<and> (jwt_verify token = JsonWebTokenError \<or> jwt_verify token = TokenExpiredError
            \<or> jwt_verify token = OtherError \<or> jwt_verify token = Decoded None
            \<or> (\<exists>userId. jwt_verify token = Decoded (Some userId)
                  \<and> (castObjectId userId = None
                      \<or> (\<exists>i. castObjectId userId = Some i \<and> findUserById users i = None))))
      \<longrightarrow> optionalAuth jwt_verify tokenBlacklist users authHeader = Next None)"
proof -
  have tok: "js_replace ''Bearer '' [] (''Bearer '' @ token) = token"
    using js_replace_prefix [of "''Bearer ''" "[]" token] by simp
  have sw: "startsWith (''Bearer '' @ token) ''Bearer ''"
    by (rule startsWith_append)
  have a: "\<exists>u. optionalAuth jwt_verify tokenBlacklist users authHeader = Next u"
    by (rule optionalAuth_next)
  have b: "optionalAuth jwt_verify tokenBlacklist users authHeader
       = optionalAuth jwt_verify {} users authHeader"
    by (simp add: optionalAuth_def)
  have c: "authHeader = Some (''Bearer '' @ token) \<and> token \<noteq> []
        \<and> auth jwt_verify tokenBlacklist users authHeader = Next (Some u)
      \<longrightarrow> (let revoked = snd (logout jwt_verify tokenBlacklist users authHeader) in
            token \<in> revoked
            \<and> auth jwt_verify revoked users authHeader
                = Respond (ErrorReply 401 ''Token has been invalidated'')
            \<and> optionalAuth jwt_verify revoked users authHeader = Next (Some u))"
    using tok sw
    by (auto simp: logout_def auth_def optionalAuth_def blacklistToken_def
        isTokenBlacklisted_def Let_def split: jwt_outcome.splits option.splits if_splits)
  have d: "authHeader = Some (''Bearer '' @ token)
        \<and> (jwt_verify token = JsonWebTokenError \<or> jwt_verify token = TokenExpiredError
            \<or> jwt_verify token = OtherError \<or> jwt_verify token = Decoded None
            \<or> (\<exists>userId. jwt_verify token = Decoded (Some userId)
                  \<and> (castObjectId userId = None
                      \<or> (\<exists>i. castObjectId userId = Some i \<and> findUserById users i = None))))
      \<longrightarrow> optionalAuth jwt_verify tokenBlacklist users authHeader = Next None"
    using tok by (auto simp: optionalAuth_def Let_def)
  from a b c d show ?thesis by blast
qed

theorem optionalAuth_ignores_revocation_witness:
  "(let revoked = snd (logout example_verify {} [alice, bob] (Some ''Bearer tok-alice'')) in
      ''tok-alice'' \<in> revoked
      \<and> auth example_verify revoked [alice, bob] (Some ''Bearer tok-alice'')
          = Respond (ErrorReply 401 ''Token has been invalidated'')
      \<and> optionalAuth example_verify revoked [alice, bob] (Some ''Bearer tok-alice'')
          = Next (Some alice))
   \<and> optionalAuth example_verify {} [alice, bob] (Some ''Bearer tok-old'') = Next None
   \<and> optionalAuth example_verify {} [alice, bob] (Some ''Bearer tok-forged'') = Next None"
proof -
  have ok: "auth example_verify {} [alice, bob] (Some ''Bearer tok-alice'') = Next (Some alice)"
    by (simp add: auth_def startsWith_def isTokenBlacklisted_def example_verify_def
        castObjectId_examples alice_def bob_def)
  have 1: "let revoked = snd (logout example_verify {} [alice, bob] (Some ''Bearer tok-alice'')) in
      ''tok-alice'' \<in> revoked
      \<and> auth example_verify revoked [alice, bob] (Some ''Bearer tok-alice'')
          = Respond (ErrorReply 401 ''Token has been invalidated'')
      \<and> optionalAuth example_verify revoked [alice, bob] (Some ''Bearer tok-alice'')
          = Next (Some alice)"
    using ok optionalAuth_ignores_revocation [of example_verify "{}" "[alice, bob]"
        "Some ''Bearer tok-alice''" "''tok-alice''" alice]
    by simp
  have 2: "optionalAuth example_verify {} [alice, bob] (Some ''Bearer tok-old'') = Next None"
    using optionalAuth_ignores_revocation [of example_verify "{}" "[alice, bob]"
        "Some ''Bearer tok-old''" "''tok-old''"]
    by (simp add: example_verify_def)
  have 3: "optionalAuth example_verify {} [alice, bob] (Some ''Bearer tok-forged'') = Next None"
    using optionalAuth_ignores_revocation [of example_verify "{}" "[alice, bob]"
        "Some ''Bearer tok-forged''" "''tok-forged''"]
    by (simp add: example_verify_def castObjectId_examples)
  from 1 2 3 show ?thesis by simp
qed

section \<open>Reading a post\<close>

lemma findBlogById_id: "findBlogById bs i = Some b \<Longrightarrow> blog_id b = i"
  by (induction bs) (auto split: if_splits)

lemma findBlogById_saveBlog:
  "findBlogById (saveBlog d bs) j =
     (if j = blog_id d then map_option (\<lambda>b. d) (findBlogById bs j) else findBlogById bs j)"
  by (induction bs) auto

lemma findUserById_id: "findUserById us i = Some u \<Longrightarrow> user_id u = i"
  by (induction us) (auto split: if_splits)

lemma findUserById_pushFollowing:
  "findUserById (pushFollowing i x us) j =
     (if j = i then map_option (\<lambda>u. u\<lparr>following := following u @ [x]\<rparr>) (findUserById us j)
      else findUserById us j)"
  by (induction us) auto

lemma findUserById_pushFollowers:
  "findUserById (pushFollowers i x us) j =
     (if j = i then map_option (\<lambda>u. u\<lparr>followers := followers u @ [x]\<rparr>) (findUserById us j)
      else findUserById us j)"
  by (induction us) auto

text \<open>
  Claim C4. Reading a single post whose status is not \<open>published\<close> is answered 404
  ``Blog not found'', not 403, unless the viewer is authenticated and is the author of
  the post, who gets the post; reading a published post succeeds for every viewer,
  authenticated or not. For an authenticated viewer the author reference of the post
  resolves in the identity store, as it does for every post of a store that the routes
  can build (\<open>reachable_post\<close>): without it, reading \<open>_id\<close> of the populated author
  throws and the answer is 500.
\<close>

theorem getBlog_visibility:
  assumes post: "findBlogById blogs i = Some P"
    and resolves: "req_user \<noteq> None \<longrightarrow> findUserById users (author P) \<noteq> None"
  shows "(status P \<noteq> ''published''
            \<and> \<not> (\<exists>v. req_user = Some v \<and> user_id v = author P)
          \<longrightarrow> getBlog req_user i users blogs = (ErrorReply 404 ''Blog not found'', blogs))
       \<and> (status P \<noteq> ''published'' \<and> (\<exists>v. req_user = Some v \<and> user_id v = author P)
          \<longrightarrow> getBlog req_user i users blogs = (BlogReply P (isLikedBy req_user P), blogs))
       \<and> (status P = ''published''
          \<longrightarrow> (\<exists>b l. fst (getBlog req_user i users blogs) = BlogReply b l \<and> blog_id b = i
                 \<and> status_code (fst (getBlog req_user i users blogs)) = 200))"
proof (cases req_user)
  case None
  then show ?thesis
    using post findBlogById_id [OF post]
    by (simp add: getBlog_def Let_def incrementViews_def)
next
  case (Some v)
  then obtain a where a: "findUserById users (author P) = Some a"
    using resolves by auto
  have "user_id a = author P"
    using a by (rule findUserById_id)
  then show ?thesis
    using Some a post findBlogById_id [OF post]
    by (auto simp: getBlog_def Let_def incrementViews_def split: bool.splits)
qed

theorem getBlog_visibility_witness:
  "getBlog (Some bob) ''p2'' [alice, bob] [example_blog, example_draft]
     = (ErrorReply 404 ''Blog not found'', [example_blog, example_draft])
   \<and> getBlog None ''p2'' [alice, bob] [example_blog, example_draft]
     = (ErrorReply 404 ''Blog not found'', [example_blog, example_draft])
   \<and> getBlog (Some alice) ''p2'' [alice, bob] [example_blog, example_draft]
     = (BlogReply example_draft (isLikedBy (Some alice) example_draft),
        [example_blog, example_draft])
   \<and> status_code (fst (getBlog (Some bob) ''p1'' [alice, bob] [example_blog, example_draft]))
     = 200"
proof -
  have 1: "getBlog (Some bob) ''p2'' [alice, bob] [example_blog, example_draft]
     = (ErrorReply 404 ''Blog not found'', [example_blog, example_draft])"
    using getBlog_visibility [of "[example_blog, example_draft]" "''p2''" example_draft
        "Some bob" "[alice, bob]"]
    by (simp add: example_blog_def example_draft_def alice_def bob_def)
  have 2: "getBlog None ''p2'' [alice, bob] [example_blog, example_draft]
     = (ErrorReply 404 ''Blog not found'', [example_blog, example_draft])"
    using getBlog_visibility [of "[example_blog, example_draft]" "''p2''" example_draft
        None "[alice, bob]"]
    by (simp add: example_blog_def example_draft_def)
  have 3: "getBlog (Some alice) ''p2'' [alice, bob] [example_blog, example_draft]
     = (BlogReply example_draft (isLikedBy (Some alice) example_draft),
        [example_blog, example_draft])"
    using getBlog_visibility [of "[example_blog, example_draft]" "''p2''" example_draft
        "Some alice" "[alice, bob]"]
    by (simp add: example_blog_def example_draft_def alice_def bob_def)
  have 4: "status_code (fst (getBlog (Some bob) ''p1'' [alice, bob]
        [example_blog, example_draft])) = 200"
    using getBlog_visibility [of "[example_blog, example_draft]" "''p1''" example_blog
        "Some bob" "[alice, bob]"]
    by (auto simp add: example_blog_def example_draft_def alice_def bob_def)
  from 1 2 3 4 show ?thesis by simp
qed

text \<open>
  Claim C8. A read of a published post adds exactly one to its view counter and leaves
  every other post as it was, except when the authenticated viewer is the author of the
  post: then nothing is written. An unauthenticated read always increments.
\<close>

theorem getBlog_views:
  assumes post: "findBlogById blogs i = Some P"
    and pub: "status P = ''published''"
    and resolves: "req_user \<noteq> None \<longrightarrow> findUserById users (author P) \<noteq> None"
  shows "((\<exists>v. req_user = Some v \<and> user_id v = author P)
          \<longrightarrow> snd (getBlog req_user i users blogs) = blogs)
       \<and> (\<not> (\<exists>v. req_user = Some v \<and> user_id v = author P)
          \<longrightarrow> findBlogById (snd (getBlog req_user i users blogs)) i
                = Some (P\<lparr>views := views P + 1\<rparr>)
              \<and> (\<forall>j. j \<noteq> i \<longrightarrow> findBlogById (snd (getBlog req_user i users blogs)) j
                                 = findBlogById blogs j))
       \<and> (req_user = None
          \<longrightarrow> findBlogById (snd (getBlog req_user i users blogs)) i
                = Some (P\<lparr>views := views P + 1\<rparr>))"
proof (cases req_user)
  case None
  then show ?thesis
    using post pub findBlogById_id [OF post]
    by (simp add: getBlog_def Let_def incrementViews_def findBlogById_saveBlog)
next
  case (Some v)
  then obtain a where a: "findUserById users (author P) = Some a"
    using resolves by auto
  have "user_id a = author P"
    using a by (rule findUserById_id)
  then show ?thesis
    using Some a post pub findBlogById_id [OF post]
    by (auto simp: getBlog_def Let_def incrementViews_def findBlogById_saveBlog split: bool.splits)
qed

theorem getBlog_views_witness:
  "findBlogById (snd (getBlog None ''p1'' [alice, bob] [example_blog, example_draft])) ''p1''
     = Some (example_blog\<lparr>views := 8\<rparr>)
   \<and> findBlogById (snd (getBlog (Some bob) ''p1'' [alice, bob]
         [example_blog, example_draft])) ''p1''
     = Some (example_blog\<lparr>views := 8\<rparr>)
   \<and> snd (getBlog (Some alice) ''p1'' [alice, bob] [example_blog, example_draft])
     = [example_blog, example_draft]"
proof -
  have 1: "findBlogById (snd (getBlog None ''p1'' [alice, bob]
        [example_blog, example_draft])) ''p1'' = Some (example_blog\<lparr>views := 8\<rparr>)"
    using getBlog_views [of "[example_blog, example_draft]" "''p1''" example_blog
        None "[alice, bob]"]
    by (simp add: example_blog_def example_draft_def)
  have 2: "findBlogById (snd (getBlog (Some bob) ''p1'' [alice, bob]
        [example_blog, example_draft])) ''p1'' = Some (example_blog\<lparr>views := 8\<rparr>)"
    using getBlog_views [of "[example_blog, example_draft]" "''p1''" example_blog
        "Some bob" "[alice, bob]"]
    by (simp add: example_blog_def example_draft_def alice_def bob_def)
  have 3: "snd (getBlog (Some alice) ''p1'' [alice, bob] [example_blog, example_draft])
     = [example_blog, example_draft]"
    using getBlog_views [of "[example_blog, example_draft]" "''p1''" example_blog
        "Some alice" "[alice, bob]"]
    by (simp add: example_blog_def example_draft_def alice_def bob_def)
  from 1 2 3 show ?thesis by simp
qed


section \<open>Following\<close>

text \<open>
  What \<open>follow\<close> answers when the path parameter spells the identifier as it is
  stored. When A already follows B, the request is answered 400 ``Already following this
  user'' and the identity store is returned as it was; this is the answer to the second
  of two successive requests of which the first succeeded. A request of A to follow A is
  answered 400 and writes nothing.
\<close>

lemma follow_canonical:
  "(user_id A \<noteq> b \<and> castObjectId b = Some i \<and> findUserById users i = Some B
      \<and> findUserById users (user_id A) = Some A' \<and> b \<in> set (following A')
     \<longrightarrow> follow A b users = (ErrorReply 400 ''Already following this user'', users))
   \<and> (castObjectId b = Some b
      \<and> fst (follow A b users) = MessageReply 200 ''User followed successfully''
     \<longrightarrow> follow A b (snd (follow A b users))
          = (ErrorReply 400 ''Already following this user'', snd (follow A b users)))
   \<and> follow A (user_id A) users = (ErrorReply 400 ''You cannot follow yourself'', users)"
proof -
  have 1: "user_id A \<noteq> b \<and> castObjectId b = Some i \<and> findUserById users i = Some B
      \<and> findUserById users (user_id A) = Some A' \<and> b \<in> set (following A')
     \<longrightarrow> follow A b users = (ErrorReply 400 ''Already following this user'', users)"
    by (simp add: follow_def)
  have 3: "follow A (user_id A) users = (ErrorReply 400 ''You cannot follow yourself'', users)"
    by (simp add: follow_def)
  have 2: "follow A b (snd (follow A b users))
          = (ErrorReply 400 ''Already following this user'', snd (follow A b users))"
    if c: "castObjectId b = Some b"
      and ok: "fst (follow A b users) = MessageReply 200 ''User followed successfully''"
  proof -
    from ok have ne: "user_id A \<noteq> b"
      by (auto simp: follow_def)
    from ok ne c obtain B0 where B0: "findUserById users b = Some B0"
      by (auto simp: follow_def split: option.splits)
    from ok ne c B0 obtain A0 where A0: "findUserById users (user_id A) = Some A0"
      by (auto simp: follow_def split: option.splits)
    from ok ne c B0 A0 have nf: "b \<notin> set (following A0)"
      by (auto simp: follow_def split: if_splits)
    have idB: "user_id B0 = b" using B0 by (rule findUserById_id)
    have idA: "user_id A0 = user_id A" using A0 by (rule findUserById_id)
    show ?thesis
      using ne c B0 A0 nf idA idB
      by (simp add: follow_def Let_def findUserById_pushFollowing findUserById_pushFollowers)
  qed
  from 1 2 3 show ?thesis by blast
qed

text \<open>
  Claim C7. The self check and the already-following check compare the path parameter
  as the request spells it, while \<open>findById\<close> and \<open>push\<close> read it as an
  identifier. Alice follows Bob. Her request to follow Bob under his identifier in upper
  case is answered 200 and stores Bob a second time in her following list and her a
  second time in his followers list; her request to follow her own identifier in upper
  case is answered 200 and stores her in her own following and followers lists.
\<close>

theorem follow_upper_case_id:
  "''bbbbbbbbbbbbbbbbbbbbbbb2'' \<in> set (following alice)
   \<and> follow alice ''BBBBBBBBBBBBBBBBBBBBBBB2'' [alice, bob]
       = (MessageReply 200 ''User followed successfully'',
          [alice\<lparr>following := [''bbbbbbbbbbbbbbbbbbbbbbb2'', ''bbbbbbbbbbbbbbbbbbbbbbb2'']\<rparr>,
           bob\<lparr>followers := [''aaaaaaaaaaaaaaaaaaaaaaa1'', ''aaaaaaaaaaaaaaaaaaaaaaa1'']\<rparr>])
   \<and> follow alice ''AAAAAAAAAAAAAAAAAAAAAAA1'' [alice, bob]
       = (MessageReply 200 ''User followed successfully'',
          [alice\<lparr>following := [''bbbbbbbbbbbbbbbbbbbbbbb2'', ''aaaaaaaaaaaaaaaaaaaaaaa1''],
                 followers := [''aaaaaaaaaaaaaaaaaaaaaaa1'']\<rparr>,
           bob])"
  by (simp add: follow_def castObjectId_examples Let_def alice_def bob_def)

section \<open>Updating a post\<close>

lemma applyUpdate_blog_id: "blog_id (applyUpdate u b) = blog_id b"
  by (simp add: applyUpdate_def)

lemma applyUpdate_status: "status (applyUpdate u b) = orElse (upd_status u) (status b)"
  by (simp add: applyUpdate_def)

lemma applyUpdate_publishedAt:
  "publishedAt (applyUpdate u b) = orElse (upd_publishedAt u) (publishedAt b)"
  by (simp add: applyUpdate_def)

lemma validatePut_status:
  "validatePut body = [] \<Longrightarrow>
   body_status body = None \<or> body_status body = Some ''draft''
   \<or> body_status body = Some ''published''"
  by (auto simp: validatePut_def status_errors_def withMessage_def optional_def isIn_def
      split: if_splits option.splits)

lemma validatePut_archived:
  "body_status body = Some ''archived'' \<Longrightarrow> ''Invalid status'' \<in> set (validatePut body)"
  by (simp add: validatePut_def status_errors_def withMessage_def optional_def isIn_def)

text \<open>The outcomes of an update.\<close>

lemma updateBlog_cases:
  "updateBlog now req_user i body blogs =
     (if validatePut body \<noteq> [] then (ValidationErrors (validatePut body), blogs)
      else case findBlogById blogs i of
        None \<Rightarrow> (ErrorReply 404 ''Blog not found'', blogs)
      | Some b \<Rightarrow>
          if author b \<noteq> user_id req_user
          then (ErrorReply 403 ''Not authorized to update this blog'', blogs)
          else if updateValid (filteredUpdates now b body)
          then (BlogMessageReply 200 ''Blog updated successfully''
                  (applyUpdate (filteredUpdates now b body) b),
                saveBlog (applyUpdate (filteredUpdates now b body) b) blogs)
          else (ErrorReply 500 ''Server error during blog update'', blogs))"
  by (simp add: updateBlog_def Let_def split: option.splits)

lemmas eval_put = updateBlog_cases validatePut_def withMessage_def optional_def
  gallery_size_errors_def gallery_type_errors_def gallery_placement_errors_def gallery_of_def
  status_errors_def isIn_def status_body_def empty_body_def updateValid_def
  filteredUpdates_def status_ok_def

text \<open>When an owner's update is applied.\<close>

lemma updateBlog_applied:
  assumes "findBlogById blogs i = Some P" and "author P = user_id req_user"
  shows "(status_code (fst (updateBlog now req_user i body blogs)) = 200)
       = (validatePut body = [] \<and> updateValid (filteredUpdates now P body))"
  using assms by (simp add: updateBlog_cases)

text \<open>
  Claim C1. For an existing post and an update request of its owner that is applied
  (answered 200): the reply carries the post as stored; a patch with status
  \<open>published\<close> on a post that is not published stores the current time as
  \<open>publishedAt\<close>; a patch with status \<open>published\<close> on a post that is already
  published leaves \<open>publishedAt\<close> as it was; a patch with status \<open>draft\<close> stores
  \<open>null\<close>.
\<close>

theorem updateBlog_publishedAt:
  assumes post: "findBlogById blogs i = Some P"
    and owner: "author P = user_id req_user"
    and applied: "status_code (fst (updateBlog now req_user i body blogs)) = 200"
  shows "\<exists>P'. updateBlog now req_user i body blogs
               = (BlogMessageReply 200 ''Blog updated successfully'' P', saveBlog P' blogs)
          \<and> findBlogById (snd (updateBlog now req_user i body blogs)) i = Some P'
          \<and> (body_status body = Some ''published'' \<and> status P \<noteq> ''published''
               \<longrightarrow> publishedAt P' = Some now)
          \<and> (body_status body = Some ''published'' \<and> status P = ''published''
               \<longrightarrow> publishedAt P' = publishedAt P)
          \<and> (body_status body = Some ''draft'' \<longrightarrow> publishedAt P' = None)"
proof -
  let ?u = "filteredUpdates now P body"
  have idP: "blog_id P = i" using post by (rule findBlogById_id)
  have valid: "validatePut body = []" and uv: "updateValid ?u"
    using applied post owner by (auto simp: updateBlog_cases split: if_splits)
  have res: "updateBlog now req_user i body blogs
      = (BlogMessageReply 200 ''Blog updated successfully'' (applyUpdate ?u P),
         saveBlog (applyUpdate ?u P) blogs)"
    using valid uv post owner by (simp add: updateBlog_cases)
  have found: "findBlogById (snd (updateBlog now req_user i body blogs)) i
      = Some (applyUpdate ?u P)"
    using res post idP by (simp add: findBlogById_saveBlog applyUpdate_blog_id)
  have dates: "(body_status body = Some ''published'' \<and> status P \<noteq> ''published''
               \<longrightarrow> publishedAt (applyUpdate ?u P) = Some now)
          \<and> (body_status body = Some ''published'' \<and> status P = ''published''
               \<longrightarrow> publishedAt (applyUpdate ?u P) = publishedAt P)
          \<and> (body_status body = Some ''draft'' \<longrightarrow> publishedAt (applyUpdate ?u P) = None)"
    by (simp add: applyUpdate_publishedAt filteredUpdates_def orElse_def)
  from res found dates show ?thesis by blast
qed

theorem updateBlog_publishedAt_witness:
  "(\<exists>P'. findBlogById (snd (updateBlog 5000 alice ''p2'' (status_body ''published'')
           [example_blog, example_draft])) ''p2'' = Some P' \<and> publishedAt P' = Some 5000)
   \<and> (\<exists>P'. findBlogById (snd (updateBlog 5000 alice ''p1'' (status_body ''published'')
           [example_blog, example_draft])) ''p1'' = Some P' \<and> publishedAt P' = Some 1000)
   \<and> (\<exists>P'. findBlogById (snd (updateBlog 5000 alice ''p1'' (status_body ''draft'')
           [example_blog, example_draft])) ''p1'' = Some P' \<and> publishedAt P' = None)"
proof -
  have p1: "findBlogById [example_blog, example_draft] ''p1'' = Some example_blog"
    and p2: "findBlogById [example_blog, example_draft] ''p2'' = Some example_draft"
    by (simp_all add: example_blog_def example_draft_def)
  have o1: "author example_blog = user_id alice" and o2: "author example_draft = user_id alice"
    by (simp_all add: example_blog_def example_draft_def alice_def)
  have a: "status_code (fst (updateBlog 5000 alice ''p2'' (status_body ''published'')
        [example_blog, example_draft])) = 200"
    by (simp add: eval_put p2 o2) (simp add: example_blog_def example_draft_def)
  have b: "status_code (fst (updateBlog 5000 alice ''p1'' (status_body ''published'')
        [example_blog, example_draft])) = 200"
    by (simp add: eval_put p1 o1) (simp add: example_blog_def example_draft_def)
  have c: "status_code (fst (updateBlog 5000 alice ''p1'' (status_body ''draft'')
        [example_blog, example_draft])) = 200"
    by (simp add: eval_put p1 o1) (simp add: example_blog_def example_draft_def)
  have 1: "\<exists>P'. findBlogById (snd (updateBlog 5000 alice ''p2'' (status_body ''published'')
           [example_blog, example_draft])) ''p2'' = Some P' \<and> publishedAt P' = Some 5000"
    using updateBlog_publishedAt [OF p2 o2 a]
    by (auto simp: status_body_def example_draft_def)
  have 2: "\<exists>P'. findBlogById (snd (updateBlog 5000 alice ''p1'' (status_body ''published'')
           [example_blog, example_draft])) ''p1'' = Some P' \<and> publishedAt P' = Some 1000"
    using updateBlog_publishedAt [OF p1 o1 b]
    by (auto simp: status_body_def example_blog_def)
  have 3: "\<exists>P'. findBlogById (snd (updateBlog 5000 alice ''p1'' (status_body ''draft'')
           [example_blog, example_draft])) ''p1'' = Some P' \<and> publishedAt P' = None"
    using updateBlog_publishedAt [OF p1 o1 c]
    by (auto simp: status_body_def example_blog_def)
  from 1 2 3 show ?thesis by blast
qed

text \<open>
  Claim C9. An update whose patch has status \<open>archived\<close> is answered 400 with the
  validation message ``Invalid status'' and the collection as it was, although
  \<open>archived\<close> is a value of the schema's enumeration (\<open>status_ok\<close>); and whatever the
  update request, a post that was not archived before it is not archived after it.
\<close>

theorem updateBlog_archived_rejected:
  "status_ok ''archived''
   \<and> (body_status body = Some ''archived''
      \<longrightarrow> updateBlog now req_user i body blogs = (ValidationErrors (validatePut body), blogs)
          \<and> ''Invalid status'' \<in> set (validatePut body)
          \<and> status_code (fst (updateBlog now req_user i body blogs)) = 400)
   \<and> (\<forall>j b b'. findBlogById blogs j = Some b \<and> status b \<noteq> ''archived''
          \<and> findBlogById (snd (updateBlog now req_user i body blogs)) j = Some b'
        \<longrightarrow> status b' \<noteq> ''archived'')"
proof -
  have 1: "updateBlog now req_user i body blogs = (ValidationErrors (validatePut body), blogs)
          \<and> ''Invalid status'' \<in> set (validatePut body)
          \<and> status_code (fst (updateBlog now req_user i body blogs)) = 400"
    if "body_status body = Some ''archived''"
  proof -
    have "''Invalid status'' \<in> set (validatePut body)"
      using that by (rule validatePut_archived)
    moreover from this have "validatePut body \<noteq> []" by auto
    ultimately show ?thesis by (simp add: updateBlog_cases)
  qed
  have 2: "status b' \<noteq> ''archived''"
    if b: "findBlogById blogs j = Some b" and nb: "status b \<noteq> ''archived''"
      and b': "findBlogById (snd (updateBlog now req_user i body blogs)) j = Some b'"
    for j b b'
  proof (cases "validatePut body = []")
    case False
    then show ?thesis using b b' nb by (simp add: updateBlog_cases)
  next
    case True
    note st = validatePut_status [OF True]
    show ?thesis
    proof (cases "findBlogById blogs i")
      case None
      then show ?thesis using True b b' nb by (simp add: updateBlog_cases)
    next
      case (Some b0)
      have id0: "blog_id b0 = i" using Some by (rule findBlogById_id)
      show ?thesis
      proof (cases "author b0 = user_id req_user \<and> updateValid (filteredUpdates now b0 body)")
        case False
        then have "snd (updateBlog now req_user i body blogs) = blogs"
          using True Some by (auto simp: updateBlog_cases)
        then show ?thesis using b b' nb by simp
      next
        case ok: True
        show ?thesis
        proof (cases "j = i")
          case False
          then show ?thesis
            using True Some ok b b' nb id0
            by (simp add: updateBlog_cases findBlogById_saveBlog applyUpdate_blog_id)
        next
          case ji: True
          then have "b' = applyUpdate (filteredUpdates now b0 body) b0" and "b = b0"
            using True Some ok b b' id0
            by (simp_all add: updateBlog_cases findBlogById_saveBlog applyUpdate_blog_id)
          then show ?thesis
            using st nb
            by (auto simp: applyUpdate_status filteredUpdates_def orElse_def)
        qed
      qed
    qed
  qed
  have 0: "status_ok ''archived''"
    by (simp add: status_ok_def isIn_def)
  from 0 1 2 show ?thesis by blast
qed

theorem updateBlog_archived_rejected_witness:
  "updateBlog 5000 alice ''p2'' (status_body ''archived'') [example_blog, example_draft]
     = (ValidationErrors [''Invalid status''], [example_blog, example_draft])
   \<and> (\<exists>b'. findBlogById (snd (updateBlog 5000 alice ''p2'' (status_body ''published'')
           [example_blog, example_draft])) ''p2'' = Some b' \<and> status b' \<noteq> ''archived'')"
proof -
  have 1: "updateBlog 5000 alice ''p2'' (status_body ''archived'') [example_blog, example_draft]
     = (ValidationErrors [''Invalid status''], [example_blog, example_draft])"
    using updateBlog_archived_rejected [of "status_body ''archived''" 5000 alice "''p2''"
        "[example_blog, example_draft]"]
    by (simp add: validatePut_def withMessage_def optional_def
        gallery_size_errors_def gallery_type_errors_def gallery_placement_errors_def
        gallery_of_def status_errors_def isIn_def status_body_def empty_body_def)
  have d: "findBlogById [example_blog, example_draft] ''p2'' = Some example_draft
      \<and> status example_draft \<noteq> ''archived''"
    by (simp add: example_blog_def example_draft_def)
  have "findBlogById (snd (updateBlog 5000 alice ''p2'' (status_body ''published'')
           [example_blog, example_draft])) ''p2'' \<noteq> None"
    by (simp add: eval_put example_blog_def example_draft_def alice_def)
  then obtain b' where b': "findBlogById (snd (updateBlog 5000 alice ''p2''
           (status_body ''published'') [example_blog, example_draft])) ''p2'' = Some b'"
    by blast
  have "status b' \<noteq> ''archived''"
    using d b' updateBlog_archived_rejected [of "status_body ''published''" 5000 alice "''p2''"
        "[example_blog, example_draft]"]
    by blast
  with 1 b' show ?thesis by blast
qed

section \<open>Read time\<close>

lemma ceil_div_ceiling: "ceil_div a b = \<lceil>real_of_int a / real_of_int b\<rceil>"
proof -
  have "\<lceil>real_of_int a / real_of_int b\<rceil> = - \<lfloor>real_of_int (- a) / real_of_int b\<rfloor>"
    by (simp add: ceiling_def)
  also have "\<dots> = - ((- a) div b)"
    by (simp only: floor_divide_of_int_eq)
  finally show ?thesis by (simp add: ceil_div_def)
qed

lemma ceil_div_pos: "0 < a \<Longrightarrow> 0 < b \<Longrightarrow> 1 \<le> ceil_div a b"
  by (simp add: ceil_div_ceiling)

lemma split_ws_from_length:
  "length (split_ws_from True cur s)
     = count_words_from False s + (if ends_space True s then 1 else 0)
   \<and> length (split_ws_from False cur s)
     = count_words_from True s + 1 + (if ends_space False s then 1 else 0)"
proof (induction s arbitrary: cur)
  case Nil
  show ?case by (simp add: ends_space_def)
next
  case (Cons c cs)
  have e1: "ends_space f (c # cs) = ends_space (is_space c) cs" for f
    by (simp add: ends_space_def)
  show ?case
  proof (cases "is_space c")
    case True
    then show ?thesis using Cons [of cur] Cons [of "[]"] by (simp add: e1)
  next
    case False
    then show ?thesis using Cons [of "cur @ [c]"] by (simp add: e1)
  qed
qed

lemma count_words_from_True:
  "count_words_from False s
     = count_words_from True s + (if s \<noteq> [] \<and> \<not> is_space (hd s) then 1 else 0)"
  by (cases s) auto

lemma split_ws_length:
  "length (split_ws s)
     = spec_wordCount s + (if s = [] \<or> is_space (hd s) then 1 else 0)
       + (if s \<noteq> [] \<and> is_space (last s) then 1 else 0)"
  using split_ws_from_length [of "[]" s] count_words_from_True [of s]
  by (auto simp: split_ws_def spec_wordCount_def ends_space_def)

lemma split_ws_nonempty: "1 \<le> length (split_ws s)"
  using split_ws_length [of s] by (cases s) (auto simp: spec_wordCount_def)

lemma readTimeOf_ge_1: "1 \<le> readTimeOf s"
proof -
  have "0 < int (length (split_ws s))" using split_ws_nonempty [of s] by linarith
  then have "1 \<le> ceil_div (int (length (split_ws s))) 200"
    by (rule ceil_div_pos) simp
  then show ?thesis
    by (simp add: readTimeOf_def Let_def)
qed

text \<open>Where the handlers' count is the specification's.\<close>

lemma readTimeOf_spec:
  assumes "s \<noteq> []" "\<not> is_space (hd s)" "\<not> is_space (last s)"
  shows "readTimeOf s = spec_readTime s"
proof -
  have len: "length (split_ws s) = spec_wordCount s"
    using assms split_ws_length [of s] by simp
  have "1 \<le> readTimeOf s" by (rule readTimeOf_ge_1)
  then show ?thesis
    using len by (simp add: readTimeOf_def spec_readTime_def Let_def)
qed

lemma split_word:
  "split_ws_from f cur (''word '' @ rest) = (cur @ ''word'') # split_ws_from True [] rest"
  by (simp add: is_space_def)

lemma split_words_trailing:
  "length (split_ws_from f [] (concat (replicate n ''word ''))) = Suc n"
proof (induction n arbitrary: f)
  case 0
  show ?case by simp
next
  case (Suc n)
  have "split_ws_from f [] (concat (replicate (Suc n) ''word ''))
      = ''word'' # split_ws_from True [] (concat (replicate n ''word ''))"
    using split_word [of f "[]" "concat (replicate n ''word '')"] by simp
  then show ?case using Suc [of True] by simp
qed

lemma count_words_trailing:
  "count_words_from False (concat (replicate n ''word '')) = n"
  by (induction n) (simp_all add: is_space_def)

lemma length_concat_replicate: "length (concat (replicate n w)) = n * length w"
  by (induction n) simp_all

lemma trailing_body_length: "length trailing_body = 1000"
  by (simp add: trailing_body_def length_concat_replicate)

lemma trailing_body_pieces: "length (split_ws trailing_body) = 201"
  using split_words_trailing [of False 200] by (simp add: split_ws_def trailing_body_def)

lemma trailing_body_words: "spec_wordCount trailing_body = 200"
  using count_words_trailing [of 200] by (simp add: spec_wordCount_def trailing_body_def)

lemma readTimeOf_trailing_body: "readTimeOf trailing_body = 2"
  by (simp add: readTimeOf_def trailing_body_pieces ceil_div_def)

lemma spec_readTime_trailing_body: "spec_readTime trailing_body = 1"
  by (simp add: spec_readTime_def trailing_body_words ceil_div_def)

lemma js_trim_First_post: "js_trim ''First post'' = ''First post''"
  by (simp add: js_trim_def is_space_def)

lemma validatePost_post_body: "10 \<le> length c \<Longrightarrow> validatePost (post_body c) = []"
  by (simp add: validatePost_def post_body_def empty_body_def withMessage_def isLength_def
      field_value_def isIn_def categories_def gallery_type_errors_def
      gallery_placement_errors_def gallery_size_errors_def gallery_of_def status_errors_def
      optional_def)

lemma createBlog_post_body:
  assumes "10 \<le> length c"
  shows "\<exists>b. createBlog now new_id req_user (post_body c) blogs
            = (BlogMessageReply 201 ''Blog created successfully'' b, blogs @ [b])
          \<and> content b = c \<and> readTime b = readTimeOf c"
proof -
  have v: "validatePost (post_body c) = []"
    using assms by (rule validatePost_post_body)
  have c: "c \<noteq> []" using assms by auto
  have r: "1 \<le> readTimeOf c" by (rule readTimeOf_ge_1)
  show ?thesis
    using assms c r
    by (simp add: createBlog_def v Let_def)
       (simp add: post_body_def empty_body_def field_value_def schemaValid_def
         js_trim_First_post title_ok_def content_ok_def excerpt_ok_def category_ok_def
         isIn_def categories_def tags_ok_def media_ok_def default_media_def gallery_ok_def
         gallery_of_def normaliseGallery_def enumerate_eq_zip status_ok_def readTime_ok_def)
qed

lemma validatePut_content:
  "validatePut body = [] \<Longrightarrow> body_content body = Some c \<Longrightarrow> 10 \<le> length c"
  by (auto simp: validatePut_def withMessage_def optional_def isLength_def split: if_splits)

lemma updateBlog_readTime:
  assumes post: "findBlogById blogs i = Some P"
    and owner: "author P = user_id req_user"
    and applied: "status_code (fst (updateBlog now req_user i body blogs)) = 200"
    and touched: "body_content body = Some c"
  shows "\<exists>P'. updateBlog now req_user i body blogs
               = (BlogMessageReply 200 ''Blog updated successfully'' P', saveBlog P' blogs)
          \<and> content P' = c \<and> readTime P' = readTimeOf c"
proof -
  let ?u = "filteredUpdates now P body"
  have valid: "validatePut body = []" and uv: "updateValid ?u"
    using applied post owner by (auto simp: updateBlog_cases split: if_splits)
  have "10 \<le> length c" using valid touched by (rule validatePut_content)
  then have c: "c \<noteq> []" by auto
  have res: "updateBlog now req_user i body blogs
      = (BlogMessageReply 200 ''Blog updated successfully'' (applyUpdate ?u P),
         saveBlog (applyUpdate ?u P) blogs)"
    using valid uv post owner by (simp add: updateBlog_cases)
  have "content (applyUpdate ?u P) = c \<and> readTime (applyUpdate ?u P) = readTimeOf c"
    using touched c by (simp add: applyUpdate_def filteredUpdates_def orElse_def)
  with res show ?thesis by blast
qed

lemma split_words_no_trailing:
  "length (split_ws_from f [] (concat (replicate n ''word '') @ ''word'')) = Suc n"
proof (induction n arbitrary: f)
  case 0
  show ?case by (simp add: is_space_def)
next
  case (Suc n)
  have "split_ws_from f [] (concat (replicate (Suc n) ''word '') @ ''word'')
      = ''word'' # split_ws_from True [] (concat (replicate n ''word '') @ ''word'')"
    using split_word [of f "[]" "concat (replicate n ''word '') @ ''word''"] by simp
  then show ?case using Suc [of True] by simp
qed

text \<open>The two bodies the specification names: 400 words and 199 words, separated by
  single spaces.\<close>

lemma readTimeOf_400_199:
  "readTimeOf (concat (replicate 399 ''word '') @ ''word'') = 2"
  "readTimeOf (concat (replicate 198 ''word '') @ ''word'') = 1"
  using split_words_no_trailing [of False 399] split_words_no_trailing [of False 198]
  by (simp_all add: readTimeOf_def split_ws_def ceil_div_def)

text \<open>
  Claim C6. The stored read time is \<open>Math.ceil(wordCount / 200)\<close> where
  \<open>wordCount\<close> is the number of pieces of \<open>content.split(/\s+/)\<close>
  (\<open>createBlog_post_body\<close>, \<open>updateBlog_readTime\<close>). That number is the number of
  words plus one for white space at the start and one for white space at the end
  (\<open>split_ws_length\<close>), so it is the read time of the specification for a body that
  neither starts nor ends with white space (\<open>readTimeOf_spec\<close>), as for the bodies of
  400 and of 199 words (\<open>readTimeOf_400_199\<close>). For the body of 200 words that ends
  with a space, creation stores the read time 2, where \<open>ceil(200 / 200)\<close> is 1.
\<close>

theorem readTime_trailing_space:
  "spec_wordCount trailing_body = 200
   \<and> spec_readTime trailing_body = 1
   \<and> (\<exists>b. createBlog now new_id req_user (post_body trailing_body) blogs
            = (BlogMessageReply 201 ''Blog created successfully'' b, blogs @ [b])
          \<and> content b = trailing_body \<and> readTime b = 2)"
proof -
  have "10 \<le> length trailing_body" by (simp add: trailing_body_length)
  from createBlog_post_body [OF this, of now new_id req_user blogs]
  show ?thesis
    by (simp add: trailing_body_words spec_readTime_trailing_body readTimeOf_trailing_body)
qed


section \<open>Listing\<close>

lemma length_insort_by: "length (insort_by le x xs) = Suc (length xs)"
  by (induction xs) simp_all

lemma length_sort_by: "length (sort_by le xs) = length xs"
  by (induction xs) (simp_all add: sort_by_def length_insort_by)

lemma set_insort_by: "set (insort_by le x xs) = insert x (set xs)"
  by (induction xs) auto

lemma set_sort_by: "set (sort_by le xs) = set xs"
  by (induction xs) (simp_all add: sort_by_def set_insort_by)

text \<open>The reply of the listing, in the terms of the specification: the page number
  \<open>p\<close> and the page size \<open>s\<close> are the clamped ones.\<close>

lemma listBlogs_page:
  assumes search: "compileSearch regex q = Some rx"
    and p: "p = max 1 (orElse (q_page q) 1)"
    and s: "s = min 100 (max 1 (orElse (q_limit q) 10))"
    and m: "matching = filter (matchesQuery rx q) blogs"
  shows "\<exists>d. listBlogs regex req_user q blogs = ListReply d
          \<and> map fst (l_blogs d)
              = take (nat s) (drop (nat ((p - 1) * s))
                  (sort_by (sortOptions (orElse (q_sort q) ''newest'')) matching))
          \<and> length (l_blogs d) = min (nat s) (length matching - nat ((p - 1) * s))
          \<and> l_total d = int (length matching)
          \<and> l_totalPages d = js_ceil_div (int (length matching)) (orElse (q_limit q) 10)"
  using search
  by (simp add: listBlogs_def Let_def p s m comp_def length_sort_by min.commute)

lemma matching_published: "b \<in> set (filter (matchesQuery rx q) blogs) \<Longrightarrow> status b = ''published''"
  by (simp add: matchesQuery_def)

text \<open>With a page size between 1 and 100 (or none, which is 10) the total-pages value is
  the one of the specification.\<close>

lemma listBlogs_totalPages_in_range:
  assumes search: "compileSearch regex q = Some rx"
    and range: "q_limit q = None \<or> (\<exists>l. q_limit q = Some l \<and> 1 \<le> l \<and> l \<le> 100)"
    and s: "s = min 100 (max 1 (orElse (q_limit q) 10))"
  shows "\<exists>d. listBlogs regex req_user q blogs = ListReply d
          \<and> l_totalPages d = Finite \<lceil>real_of_int (l_total d) / real_of_int s\<rceil>"
proof -
  have "orElse (q_limit q) 10 = s \<and> s \<noteq> 0"
    using range s by (auto simp: orElse_def)
  then show ?thesis
    using search
    by (simp add: listBlogs_def Let_def js_ceil_div_def ceil_div_ceiling)
qed

lemma length_many_posts: "length (many_posts n) = n"
  by (simp add: many_posts_def)

lemma compileSearch_page_query: "compileSearch regex (page_query p l) = Some None"
  by (simp add: compileSearch_def page_query_def empty_query_def)

lemma matching_many_posts:
  "filter (matchesQuery None (page_query p l)) (many_posts n) = many_posts n"
  by (simp add: filter_id_conv many_posts_def matchesQuery_def page_query_def
      empty_query_def example_blog_def)

lemma listBlogs_many_posts:
  "\<exists>d. listBlogs regex req_user (page_query p l) (many_posts n) = ListReply d
     \<and> length (l_blogs d) = min (nat (min 100 (max 1 l))) (n - nat ((max 1 p - 1) * min 100 (max 1 l)))
     \<and> l_total d = int n
     \<and> l_totalPages d = js_ceil_div (int n) l"
  using listBlogs_page [where regex = regex and q = "page_query p l"
      and blogs = "many_posts n" and req_user = req_user,
      OF compileSearch_page_query refl refl refl]
  by (simp add: matching_many_posts length_many_posts)
     (auto simp: page_query_def empty_query_def orElse_def)

text \<open>The example of the specification: 25 posts in pages of 10.\<close>

lemma listBlogs_25_by_10:
  "\<exists>d1 d2 d3.
      listBlogs regex req_user (page_query 1 10) (many_posts 25) = ListReply d1
    \<and> listBlogs regex req_user (page_query 2 10) (many_posts 25) = ListReply d2
    \<and> listBlogs regex req_user (page_query 3 10) (many_posts 25) = ListReply d3
    \<and> length (l_blogs d1) = 10 \<and> length (l_blogs d2) = 10 \<and> length (l_blogs d3) = 5
    \<and> l_totalPages d1 = Finite 3 \<and> l_totalPages d2 = Finite 3 \<and> l_totalPages d3 = Finite 3"
  using listBlogs_many_posts [of regex req_user 1 10 25]
    listBlogs_many_posts [of regex req_user 2 10 25]
    listBlogs_many_posts [of regex req_user 3 10 25]
  by (auto simp: js_ceil_div_def ceil_div_def)

text \<open>
  Claim C3. The listing skips \<open>(p - 1) * s\<close> of the matching published posts and
  returns at most \<open>s\<close> of them, with the count of all of them (\<open>listBlogs_page\<close>);
  25 posts in pages of 10 give pages of 10, 10 and 5 posts and 3 total pages
  (\<open>listBlogs_25_by_10\<close>). The total-pages value is computed from the page size as
  requested, not as clamped: it is \<open>ceil(total / s)\<close> when the request has no page
  size or one between 1 and 100 (\<open>listBlogs_totalPages_in_range\<close>); for a request of
  200 posts per page over 150 published posts the listing returns 100 posts and the
  total-pages value 1, where \<open>ceil(150 / 100)\<close> is 2.
\<close>

theorem listBlogs_totalPages_raw_limit:
  "\<exists>d. listBlogs regex req_user (page_query 1 200) (many_posts 150) = ListReply d
     \<and> length (l_blogs d) = 100
     \<and> l_total d = 150
     \<and> l_totalPages d = Finite 1
     \<and> ceil_div (l_total d) (min 100 (max 1 200)) = 2"
  using listBlogs_many_posts [of regex req_user 1 200 150]
  by (auto simp: js_ceil_div_def ceil_div_def)


section \<open>Invariants of the stores\<close>

lemma findUserById_append:
  "findUserById (us @ [u]) i =
     (case findUserById us i of
        Some x \<Rightarrow> Some x
      | None \<Rightarrow> if user_id u = i then Some u else None)"
  by (induction us) auto

lemma follow_keeps_identities:
  "(findUserById (snd (follow u t us)) j \<noteq> None) = (findUserById us j \<noteq> None)"
  by (auto simp: follow_def Let_def findUserById_pushFollowing findUserById_pushFollowers
      split: option.splits if_splits)

lemma well_formed_follow:
  "well_formed us b \<Longrightarrow> well_formed (snd (follow u t us)) b"
  unfolding well_formed_def using follow_keeps_identities [of u t us "author b"] by blast

lemma findUserById_self:
  "findUserById us i = Some u \<Longrightarrow> findUserById us (user_id u) = Some u"
  by (frule findUserById_id) simp

lemma set_saveBlog: "set (saveBlog d bs) \<subseteq> insert d (set bs)"
  by (induction bs) auto

lemma set_removeBlog: "set (removeBlog i bs) \<subseteq> set bs"
  by (induction bs) auto

lemma findBlogById_mem: "findBlogById bs i = Some b \<Longrightarrow> b \<in> set bs"
  by (induction bs) (auto split: if_splits)

lemma well_formed_saveBlog:
  assumes "\<forall>b\<in>set bs. well_formed us b" and "well_formed us d"
  shows "\<forall>b\<in>set (saveBlog d bs). well_formed us b"
  using assms set_saveBlog [of d bs] by auto

lemma well_formed_createBlog:
  assumes "\<forall>b\<in>set bs. well_formed us b" and "findUserById us (user_id u) = Some u"
  shows "\<forall>b\<in>set (snd (createBlog now new_id u body bs)). well_formed us b"
  using assms by (auto simp: createBlog_def Let_def well_formed_def)

lemma updateBlog_store:
  "snd (updateBlog now u i body bs) = bs
   \<or> (\<exists>P. findBlogById bs i = Some P
        \<and> snd (updateBlog now u i body bs)
            = saveBlog (applyUpdate (filteredUpdates now P body) P) bs)"
  by (simp add: updateBlog_cases split: option.splits)

lemma likeBlog_store:
  "snd (likeBlog u i bs) = bs
   \<or> (\<exists>P. findBlogById bs i = Some P
        \<and> snd (likeBlog u i bs) = saveBlog (toggleLike P (user_id u)) bs)"
  by (simp add: likeBlog_def Let_def split: option.splits)

lemma addComment_store:
  "snd (addComment now u i c bs) = bs
   \<or> (\<exists>P k. findBlogById bs i = Some P
        \<and> snd (addComment now u i c bs) = saveBlog (P\<lparr>comments := comments P @ [k]\<rparr>) bs)"
  by (auto simp: addComment_def Let_def split: option.splits)

lemma getBlog_store:
  "snd (getBlog v i us bs) = bs
   \<or> (\<exists>P. findBlogById bs i = Some P
        \<and> snd (getBlog v i us bs) = saveBlog (incrementViews P) bs)"
  by (simp add: getBlog_def Let_def split: option.splits bool.splits)

lemma well_formed_updateBlog:
  assumes "\<forall>b\<in>set bs. well_formed us b"
  shows "\<forall>b\<in>set (snd (updateBlog now u i body bs)). well_formed us b"
proof (cases "snd (updateBlog now u i body bs) = bs")
  case True
  then show ?thesis using assms by simp
next
  case False
  then obtain P where P: "findBlogById bs i = Some P"
    and s: "snd (updateBlog now u i body bs)
            = saveBlog (applyUpdate (filteredUpdates now P body) P) bs"
    using updateBlog_store [of now u i body bs] by blast
  have "well_formed us P" using assms findBlogById_mem [OF P] by blast
  then have "well_formed us (applyUpdate (filteredUpdates now P body) P)"
    by (simp add: well_formed_def applyUpdate_def)
  then show ?thesis unfolding s by (rule well_formed_saveBlog [OF assms])
qed

lemma well_formed_deleteBlog:
  assumes "\<forall>b\<in>set bs. well_formed us b"
  shows "\<forall>b\<in>set (snd (deleteBlog u i bs)). well_formed us b"
  using assms set_removeBlog [of i bs]
  by (auto simp: deleteBlog_def split: option.splits)

lemma well_formed_likeBlog:
  assumes "\<forall>b\<in>set bs. well_formed us b"
  shows "\<forall>b\<in>set (snd (likeBlog u i bs)). well_formed us b"
proof (cases "snd (likeBlog u i bs) = bs")
  case True
  then show ?thesis using assms by simp
next
  case False
  then obtain P where P: "findBlogById bs i = Some P"
    and s: "snd (likeBlog u i bs) = saveBlog (toggleLike P (user_id u)) bs"
    using likeBlog_store [of u i bs] by blast
  have "well_formed us P" using assms findBlogById_mem [OF P] by blast
  then have "well_formed us (toggleLike P (user_id u))"
    by (simp add: well_formed_def toggleLike_def)
  then show ?thesis unfolding s by (rule well_formed_saveBlog [OF assms])
qed

lemma well_formed_addComment:
  assumes "\<forall>b\<in>set bs. well_formed us b"
  shows "\<forall>b\<in>set (snd (addComment now u i c bs)). well_formed us b"
proof (cases "snd (addComment now u i c bs) = bs")
  case True
  then show ?thesis using assms by simp
next
  case False
  then obtain P k where P: "findBlogById bs i = Some P"
    and s: "snd (addComment now u i c bs) = saveBlog (P\<lparr>comments := comments P @ [k]\<rparr>) bs"
    using addComment_store [of now u i c bs] by blast
  have "well_formed us P" using assms findBlogById_mem [OF P] by blast
  then have "well_formed us (P\<lparr>comments := comments P @ [k]\<rparr>)"
    by (simp add: well_formed_def)
  then show ?thesis unfolding s by (rule well_formed_saveBlog [OF assms])
qed

lemma well_formed_getBlog:
  assumes "\<forall>b\<in>set bs. well_formed us b"
  shows "\<forall>b\<in>set (snd (getBlog v i us bs)). well_formed us b"
proof (cases "snd (getBlog v i us bs) = bs")
  case True
  then show ?thesis using assms by simp
next
  case False
  then obtain P where P: "findBlogById bs i = Some P"
    and s: "snd (getBlog v i us bs) = saveBlog (incrementViews P) bs"
    using getBlog_store [of v i us bs] by blast
  have "well_formed us P" using assms findBlogById_mem [OF P] by blast
  then have "well_formed us (incrementViews P)"
    by (simp add: well_formed_def incrementViews_def)
  then show ?thesis unfolding s by (rule well_formed_saveBlog [OF assms])
qed

text \<open>Every post of a store that the routes can build is well formed.\<close>

lemma reachable_well_formed:
  "reachable users blogs \<Longrightarrow> \<forall>b\<in>set blogs. well_formed users b"
proof (induction rule: reachable.induct)
  case init
  show ?case by simp
next
  case (signup users blogs u)
  then show ?case
    by (auto simp: well_formed_def findUserById_append split: option.splits)
next
  case (follows users blogs u userId)
  then show ?case
    using well_formed_follow by blast
next
  case (creates users blogs u new_id now body)
  then show ?case by (simp add: well_formed_createBlog)
next
  case (updates users blogs u now i body)
  then show ?case by (simp add: well_formed_updateBlog)
next
  case (deletes users blogs u i)
  then show ?case by (simp add: well_formed_deleteBlog)
next
  case (likes users blogs u i)
  then show ?case by (simp add: well_formed_likeBlog)
next
  case (comments users blogs u now i body_comment)
  then show ?case by (simp add: well_formed_addComment)
next
  case (reads users blogs req_user i)
  then show ?case by (simp add: well_formed_getBlog)
qed

lemma reachable_post:
  assumes "reachable users blogs" and "findBlogById blogs i = Some P"
  shows "distinct (likes P)" and "findUserById users (author P) \<noteq> None"
  using reachable_well_formed [OF assms(1)] findBlogById_mem [OF assms(2)]
  by (auto simp: well_formed_def)

lemma auth_attaches_stored_identity:
  "auth jwt_verify tokenBlacklist users authHeader = Next v \<Longrightarrow>
   \<exists>u. v = Some u \<and> findUserById users (user_id u) = Some u"
  by (auto simp: auth_def Let_def split: option.splits if_splits jwt_outcome.splits)
     (metis findUserById_self)

lemma optionalAuth_attaches_stored_identity:
  "optionalAuth jwt_verify tokenBlacklist users authHeader = Next v \<Longrightarrow>
   v = None \<or> (\<exists>u. v = Some u \<and> findUserById users (user_id u) = Some u)"
  by (auto simp: optionalAuth_def Let_def findUserById_id
      split: option.splits if_splits jwt_outcome.splits)



section \<open>Like requests\<close>

lemma likeBlog_found:
  assumes "findBlogById blogs i = Some P" and "status P = ''published''"
  shows "likeBlog u i blogs
       = (LikeReply (user_id u \<in> set (likes (toggleLike P (user_id u))))
            (length (likes (toggleLike P (user_id u)))),
          saveBlog (toggleLike P (user_id u)) blogs)"
    and "findBlogById (snd (likeBlog u i blogs)) i = Some (toggleLike P (user_id u))"
  using assms findBlogById_id [OF assms(1)]
  by (simp_all add: likeBlog_def Let_def findBlogById_saveBlog toggleLike_def)

text \<open>Two like requests of one identity on a published post.\<close>

lemma likeBlog_twice:
  assumes post: "findBlogById blogs i = Some P" and pub: "status P = ''published''"
  shows "findBlogById (snd (likeBlog u i (snd (likeBlog u i blogs)))) i
       = Some (toggleLike (toggleLike P (user_id u)) (user_id u))"
proof -
  have 1: "findBlogById (snd (likeBlog u i blogs)) i = Some (toggleLike P (user_id u))"
    using post pub by (rule likeBlog_found(2))
  have 2: "status (toggleLike P (user_id u)) = ''published''"
    using pub by (simp add: toggleLike_def)
  show ?thesis
    using 1 2 by (rule likeBlog_found(2))
qed


end
